theory Spec2Isabelle
  imports Main "HOL-Library.Word" "HOL-Library.Sublist"
begin

section \<open>JavaScript strings\<close>

text \<open>
  A JavaScript string is a sequence of UTF-16 code units; \<open>length\<close>, \<open>slice\<close>,
  \<open>lastIndexOf\<close>, \<open>includes\<close> and \<open>trim\<close> all work on code units. The ASCII
  literals of the source are written \<open>js ''...''\<close>.
\<close>

type_synonym jschar = "16 word"
type_synonym jsstring = "jschar list"

definition js :: "string \<Rightarrow> jsstring" where
  "js s = map of_char s"

text \<open>\<open>String.prototype.includes\<close>: the argument occurs as a contiguous run.\<close>

definition js_includes :: "jsstring \<Rightarrow> jsstring \<Rightarrow> bool" where
  "js_includes s pat = sublist pat s"

text \<open>
  The code units that \<open>trim\<close>, \<open>trimStart\<close> and \<open>trimEnd\<close> strip: ECMAScript's
  WhiteSpace (TAB, VT, FF, ZWNBSP and the category Zs) and LineTerminator (LF, CR, LS, PS).
\<close>

definition is_ws :: "jschar \<Rightarrow> bool" where
  "is_ws c = (c \<in> {0x09, 0x0A, 0x0B, 0x0C, 0x0D, 0x20, 0xA0, 0x1680,
      0x2000, 0x2001, 0x2002, 0x2003, 0x2004, 0x2005, 0x2006, 0x2007, 0x2008, 0x2009, 0x200A,
      0x2028, 0x2029, 0x202F, 0x205F, 0x3000, 0xFEFF})"

definition trimStart :: "jsstring \<Rightarrow> jsstring" where
  "trimStart s = dropWhile is_ws s"

definition trimEnd :: "jsstring \<Rightarrow> jsstring" where
  "trimEnd s = rev (dropWhile is_ws (rev s))"

definition trim :: "jsstring \<Rightarrow> jsstring" where
  "trim s = trimEnd (trimStart s)"

section \<open>Circuit breaker (src/circuit-breaker.ts)\<close>

datatype CircuitState = Closed | Open | HalfOpen

text \<open>The options of \<open>createCircuitBreaker\<close>, both optional.\<close>

record CircuitBreakerOptions =
  opt_threshold :: "int option"
  opt_cooldownMs :: "int option"

definition DEFAULT_THRESHOLD :: int where
  "DEFAULT_THRESHOLD = 5"

definition DEFAULT_COOLDOWN_MS :: int where
  "DEFAULT_COOLDOWN_MS = 15000"

text \<open>
  The closure of \<open>createCircuitBreaker\<close>: the two resolved constants and the two mutable
  variables \<open>failures\<close> and \<open>openedAt\<close>.
\<close>

record breaker =
  threshold :: int
  cooldownMs :: int
  failures :: int
  openedAt :: int

definition createCircuitBreaker :: "CircuitBreakerOptions option \<Rightarrow> breaker" where
  "createCircuitBreaker opts =
     \<lparr>threshold = (case Option.bind opts opt_threshold of Some t \<Rightarrow> t | None \<Rightarrow> DEFAULT_THRESHOLD),
      cooldownMs = (case Option.bind opts opt_cooldownMs of Some c \<Rightarrow> c | None \<Rightarrow> DEFAULT_COOLDOWN_MS),
      failures = 0,
      openedAt = 0\<rparr>"

text \<open>Every function that reads \<open>Date.now()\<close> takes the reading as its argument \<open>now\<close>.\<close>

definition getState :: "int \<Rightarrow> breaker \<Rightarrow> CircuitState" where
  "getState now b =
     (if failures b < threshold b then Closed
      else if now - openedAt b \<ge> cooldownMs b then HalfOpen
      else Open)"

definition recordSuccess :: "breaker \<Rightarrow> breaker" where
  "recordSuccess b = b\<lparr>failures := 0, openedAt := 0\<rparr>"

definition recordFailure :: "int \<Rightarrow> breaker \<Rightarrow> breaker" where
  "recordFailure now b =
     (let b' = b\<lparr>failures := failures b + 1\<rparr>
      in if failures b' \<ge> threshold b' then b'\<lparr>openedAt := now\<rparr> else b')"

definition isOpen :: "int \<Rightarrow> breaker \<Rightarrow> bool" where
  "isOpen now b = (getState now b = Open)"

definition isHalfOpen :: "int \<Rightarrow> breaker \<Rightarrow> bool" where
  "isHalfOpen now b = (getState now b = HalfOpen)"

definition consecutiveFailures :: "breaker \<Rightarrow> int" where
  "consecutiveFailures b = failures b"

section \<open>Numbers and values of JavaScript\<close>

text \<open>
  \<open>String(n)\<close> for an integer \<open>n\<close> (template strings, \<open>Date.now().toString()\<close>): its
  decimal digits. Counts, timestamps and limits are integers here, of magnitude below
  \<open>1e21\<close>: from there on JavaScript prints a number in exponent form (\<open>1e+21\<close>), and a
  configured limit that is not an integer prints with its fraction. Only the wording of
  the two rate-limit messages depends on \<open>num_str\<close> for a limit; which branch \<open>check\<close>
  takes does not.
\<close>

fun decimal :: "nat \<Rightarrow> jsstring" where
  "decimal n = (if n < 10 then [of_nat (48 + n)] else decimal (n div 10) @ [of_nat (48 + n mod 10)])"

declare decimal.simps [simp del]

definition num_str :: "int \<Rightarrow> jsstring" where
  "num_str n = (if n < 0 then js ''-'' @ decimal (nat (- n)) else decimal (nat n))"

text \<open>
  The values \<open>JSON.parse\<close> can return. A number is kept as what the code can observe of it:
  whether it is zero (and so falsy) and its \<open>String\<close> form. An object is the list of its
  own properties, each name once.
\<close>

datatype json =
    JNull
  | JBool bool
  | JNum bool jsstring
  | JStr jsstring
  | JArr "json list"
  | JObj "(jsstring \<times> json) list"

text \<open>What a \<open>throw\<close> carries: an \<open>Error\<close> with its message.\<close>

datatype exn = Error jsstring | TypeError jsstring

fun message_of :: "exn \<Rightarrow> jsstring" where
  "message_of (Error m) = m"
| "message_of (TypeError m) = m"

text \<open>
  \<open>parsed.name\<close>: reading a property of \<open>null\<close> throws a TypeError; a value that is not
  an object has neither an \<open>error\<close> nor a \<open>text\<close> property, and \<open>None\<close> is
  \<open>undefined\<close>.
\<close>

fun get_prop :: "json \<Rightarrow> jsstring \<Rightarrow> exn + json option" where
  "get_prop JNull name =
     Inl (TypeError (js ''Cannot read properties of null (reading '' @ [0x27] @ name @ [0x27] @ js '')''))"
| "get_prop (JObj props) name = Inr (map_of props name)"
| "get_prop v name = Inr None"

text \<open>Truthiness, as \<open>if (x)\<close> tests it.\<close>

fun truthy :: "json option \<Rightarrow> bool" where
  "truthy None = False"
| "truthy (Some JNull) = False"
| "truthy (Some (JBool b)) = b"
| "truthy (Some (JNum zero s)) = (\<not> zero)"
| "truthy (Some (JStr s)) = (s \<noteq> [])"
| "truthy (Some (JArr xs)) = True"
| "truthy (Some (JObj props)) = True"

text \<open>\<open>a ?? b\<close>: \<open>b\<close> when \<open>a\<close> is \<open>undefined\<close> or \<open>null\<close>.\<close>

fun nullish :: "json option \<Rightarrow> json \<Rightarrow> json" where
  "nullish None d = d"
| "nullish (Some JNull) d = d"
| "nullish (Some v) d = v"

fun join_comma :: "jsstring list \<Rightarrow> jsstring" where
  "join_comma [] = []"
| "join_comma [s] = s"
| "join_comma (s # t # rest) = s @ js '','' @ join_comma (t # rest)"

text \<open>The string a template literal puts in for a value.\<close>

fun js_string :: "json \<Rightarrow> jsstring" where
  "js_string JNull = js ''null''"
| "js_string (JBool b) = (if b then js ''true'' else js ''false'')"
| "js_string (JNum zero s) = s"
| "js_string (JStr s) = s"
| "js_string (JArr xs) = join_comma (map (\<lambda>x. if x = JNull then [] else js_string x) xs)"
| "js_string (JObj props) = js ''[object Object]''"

section \<open>Rate limiter (src/rate-limiter.ts)\<close>

record RateLimiterConfig =
  maxRequestsPerHour :: int
  maxRequestsPerAgentPerHour :: int
  alertChatId :: jsstring
  alertCooldownSeconds :: int

text \<open>
  The closure of \<open>createRateLimiter\<close>: a window is the list of its entries' timestamps,
  oldest first; \<open>agentWindows\<close> is the \<open>Map\<close> from agent id to window.
\<close>

record limiter =
  globalWindow :: "int list"
  agentWindows :: "jsstring \<rightharpoonup> int list"
  lastAlertAt :: int

definition createRateLimiter :: limiter where
  "createRateLimiter = \<lparr>globalWindow = [], agentWindows = Map.empty, lastAlertAt = 0\<rparr>"

definition WINDOW_MS :: int where
  "WINDOW_MS = 3600000"

text \<open>\<open>pruneWindow\<close> shifts entries off the front while the first one is older than the cutoff.\<close>

definition pruneWindow :: "int \<Rightarrow> int list \<Rightarrow> int list" where
  "pruneWindow now window = dropWhile (\<lambda>timestamp. timestamp < now - WINDOW_MS) window"

text \<open>\<open>getAgentWindow\<close> stores an empty window for an agent that has none.\<close>

definition getAgentWindow :: "jsstring \<Rightarrow> limiter \<Rightarrow> int list \<times> limiter" where
  "getAgentWindow agentId st =
     (case agentWindows st agentId of
        Some w \<Rightarrow> (w, st)
      | None \<Rightarrow> ([], st\<lparr>agentWindows := (agentWindows st)(agentId \<mapsto> [])\<rparr>))"

text \<open>The window of an agent as \<open>check\<close> sees it: empty when the map has none.\<close>

definition window_of :: "limiter \<Rightarrow> jsstring \<Rightarrow> int list" where
  "window_of st agentId = (case agentWindows st agentId of Some w \<Rightarrow> w | None \<Rightarrow> [])"

definition agent_limit_message :: "RateLimiterConfig \<Rightarrow> jsstring \<Rightarrow> jsstring" where
  "agent_limit_message config agentId =
     js ''Rate limit: agent '' @ agentId @ js '' a atteint '' @
     num_str (maxRequestsPerAgentPerHour config) @
     js '' requetes/heure. Reessaie dans quelques minutes.''"

definition global_limit_message :: "RateLimiterConfig \<Rightarrow> jsstring" where
  "global_limit_message config =
     js ''Rate limit: le systeme a atteint '' @ num_str (maxRequestsPerHour config) @
     js '' requetes/heure. Reessaie dans quelques minutes.''"

text \<open>
  \<open>check\<close>: \<open>now_g\<close> and \<open>now_a\<close> are the clock readings of its two \<open>pruneWindow\<close>
  calls (its own \<open>const now\<close> is never used). \<open>None\<close> is \<open>null\<close>.
\<close>

definition check :: "RateLimiterConfig \<Rightarrow> int \<Rightarrow> int \<Rightarrow> jsstring \<Rightarrow> limiter \<Rightarrow> jsstring option \<times> limiter" where
  "check config now_g now_a agentId st =
     (let st1 = st\<lparr>globalWindow := pruneWindow now_g (globalWindow st)\<rparr>;
          (w, st2) = getAgentWindow agentId st1;
          agentWindow = pruneWindow now_a w;
          st3 = st2\<lparr>agentWindows := (agentWindows st2)(agentId \<mapsto> agentWindow)\<rparr>
      in if int (length agentWindow) \<ge> maxRequestsPerAgentPerHour config
           then (Some (agent_limit_message config agentId), st3)
         else if int (length (globalWindow st3)) \<ge> maxRequestsPerHour config
           then (Some (global_limit_message config), st3)
         else (None, st3))"

text \<open>\<open>record(agentId)\<close>: one entry, pushed on both windows.\<close>

definition record_request :: "int \<Rightarrow> jsstring \<Rightarrow> limiter \<Rightarrow> limiter" where
  "record_request now agentId st =
     (let st1 = st\<lparr>globalWindow := globalWindow st @ [now]\<rparr>;
          (w, st2) = getAgentWindow agentId st1
      in st2\<lparr>agentWindows := (agentWindows st2)(agentId \<mapsto> w @ [now])\<rparr>)"

text \<open>
  \<open>stats()\<close> prunes every window and counts; one clock reading stands for all of its
  \<open>pruneWindow\<close> calls. The result is \<open>globalCount\<close> and \<open>byAgent\<close> (agents with a
  non-empty window only).
\<close>

definition stats :: "int \<Rightarrow> limiter \<Rightarrow> (nat \<times> (jsstring \<rightharpoonup> nat)) \<times> limiter" where
  "stats now st =
     (let g = pruneWindow now (globalWindow st);
          ws = (\<lambda>agent. map_option (pruneWindow now) (agentWindows st agent));
          byAgent = (\<lambda>agent. case ws agent of
                        None \<Rightarrow> None
                      | Some w \<Rightarrow> if length w > 0 then Some (length w) else None)
      in ((length g, byAgent), st\<lparr>globalWindow := g, agentWindows := ws\<rparr>))"

section \<open>Message splitter (src/listener.ts)\<close>

text \<open>
  \<open>s.lastIndexOf(pat, position)\<close>: the largest index \<open>k\<close>, at most \<open>position\<close>, at which
  \<open>pat\<close> occurs in \<open>s\<close>, or \<open>-1\<close>.
\<close>

definition matches_at :: "jsstring \<Rightarrow> jsstring \<Rightarrow> nat \<Rightarrow> bool" where
  "matches_at s pat k = (take (length pat) (drop k s) = pat)"

fun lastIndexFrom :: "jsstring \<Rightarrow> jsstring \<Rightarrow> nat \<Rightarrow> int" where
  "lastIndexFrom s pat 0 = (if matches_at s pat 0 then 0 else - 1)"
| "lastIndexFrom s pat (Suc k) =
     (if matches_at s pat (Suc k) then int (Suc k) else lastIndexFrom s pat k)"

definition lastIndexOf :: "jsstring \<Rightarrow> jsstring \<Rightarrow> int \<Rightarrow> int" where
  "lastIndexOf s pat position = lastIndexFrom s pat (min (nat position) (length s))"

text \<open>\<open>s.slice(start, end)\<close>; a negative index counts from the end of \<open>s\<close>.\<close>

definition slice_index :: "jsstring \<Rightarrow> int \<Rightarrow> nat" where
  "slice_index s i = (if i < 0 then nat (int (length s) + i) else min (nat i) (length s))"

definition slice :: "jsstring \<Rightarrow> int \<Rightarrow> int \<Rightarrow> jsstring" where
  "slice s start fin = take (slice_index s fin - slice_index s start) (drop (slice_index s start) s)"

definition slice_from :: "jsstring \<Rightarrow> int \<Rightarrow> jsstring" where
  "slice_from s start = drop (slice_index s start) s"

definition LF :: jschar where
  "LF = 0x0A"

definition PUBLISH_THRESHOLD :: nat where
  "PUBLISH_THRESHOLD = 3000"

definition MAX_MSG_LEN :: nat where
  "MAX_MSG_LEN = 4000"

text \<open>
  The test \<open>splitIdx > maxLen * 0.3\<close> is written over the integers,
  \<open>10 * splitIdx > 3 * maxLen\<close>: for the only \<open>maxLen\<close> the listener passes, 4000, the
  product \<open>4000 * 0.3\<close> is the double 1200 exactly.
\<close>

definition past_30_percent :: "int \<Rightarrow> nat \<Rightarrow> bool" where
  "past_30_percent splitIdx maxLen = (10 * splitIdx > 3 * int maxLen)"

text \<open>
  The \<open>while\<close> loop of \<open>splitMessage\<close>, with its variables \<open>remaining\<close> and \<open>chunks\<close>;
  after the loop the rest is pushed when it is not empty. The result is \<open>None\<close> when the
  loop does not end.
\<close>

partial_function (option) splitLoop :: "nat \<Rightarrow> jsstring \<Rightarrow> jsstring list \<Rightarrow> jsstring list option" where
  "splitLoop maxLen remaining chunks =
     (if length remaining > maxLen then
        (if past_30_percent (lastIndexOf remaining [LF, LF] (int maxLen)) maxLen then
           splitLoop maxLen
             (trimStart (slice_from remaining (lastIndexOf remaining [LF, LF] (int maxLen) + 2)))
             (chunks @ [trimEnd (slice remaining 0 (lastIndexOf remaining [LF, LF] (int maxLen)))])
         else if past_30_percent (lastIndexOf remaining [LF] (int maxLen)) maxLen then
           splitLoop maxLen
             (trimStart (slice_from remaining (lastIndexOf remaining [LF] (int maxLen) + 1)))
             (chunks @ [trimEnd (slice remaining 0 (lastIndexOf remaining [LF] (int maxLen)))])
         else
           splitLoop maxLen (slice_from remaining (int maxLen))
             (chunks @ [slice remaining 0 (int maxLen)]))
      else Some (if length remaining > 0 then chunks @ [remaining] else chunks))"

declare splitLoop.simps [code]

definition splitMessage :: "jsstring \<Rightarrow> nat \<Rightarrow> jsstring list option" where
  "splitMessage str maxLen =
     (if length str \<le> maxLen then Some [str] else splitLoop maxLen str [])"

text \<open>
  \<open>rejoins chunks str\<close>: \<open>str\<close> is the chunks in order, with a (possibly empty) run of
  white space after each one.
\<close>

inductive rejoins :: "jsstring list \<Rightarrow> jsstring \<Rightarrow> bool" where
  rejoins_Nil: "rejoins [] []"
| rejoins_Cons: "list_all is_ws gap \<Longrightarrow> rejoins chunks rest \<Longrightarrow> rejoins (c # chunks) (c @ gap @ rest)"

section \<open>Plugin types and configuration (src/types.ts, src/config.ts)\<close>

record RedisBridgeConfig =
  agents :: "jsstring list"
  redisUrl :: jsstring
  timeoutSeconds :: int
  consumerGroup :: jsstring
  consumerName :: jsstring
  contentPublisherUrl :: jsstring
  contentPublisherToken :: jsstring
  contentPublisherPublicUrl :: jsstring

definition PROTOCOL_VERSION :: jsstring where
  "PROTOCOL_VERSION = js ''1''"

definition STREAM_INBOUND :: jsstring where
  "STREAM_INBOUND = js ''bridge:inbound''"

definition STREAM_OUTBOUND :: jsstring where
  "STREAM_OUTBOUND = js ''bridge:outbound''"

definition RESPONSE_KEY_PREFIX :: jsstring where
  "RESPONSE_KEY_PREFIX = js ''bridge:response:''"

definition isEngineAgent :: "jsstring \<Rightarrow> RedisBridgeConfig \<Rightarrow> bool" where
  "isEngineAgent agentId config = (agentId \<in> set (agents config))"

text \<open>
  An optional string of the host (\<open>undefined\<close> is \<open>None\<close>): \<open>x ?? d\<close> is
  \<open>or_else x d\<close>, and \<open>if (x)\<close> holds when \<open>x\<close> is there and not empty.
\<close>

fun or_else :: "jsstring option \<Rightarrow> jsstring \<Rightarrow> jsstring" where
  "or_else None d = d"
| "or_else (Some s) d = s"

fun present :: "jsstring option \<Rightarrow> bool" where
  "present None = False"
| "present (Some s) = (s \<noteq> [])"

section \<open>The broker and the record of what a run does\<close>

text \<open>
  \<open>register\<close> opens two ioredis connections: \<open>redis\<close> and \<open>redisBlocking\<close>. A command
  is kept with the arguments the code passes.
\<close>

datatype client = Redis | RedisBlocking

datatype command =
    XADD jsstring jsstring "jsstring list"
  | BRPOP jsstring int
  | XACK jsstring jsstring jsstring
  | XPENDING jsstring jsstring jsstring jsstring int
  | XGROUP "jsstring list"
  | XREADGROUP "jsstring list"

text \<open>A read that blocks its connection: \<open>BRPOP\<close>, and \<open>XREADGROUP\<close> with \<open>BLOCK\<close>.\<close>

fun blocking_read :: "command \<Rightarrow> bool" where
  "blocking_read (BRPOP k timeout) = True"
| "blocking_read (XREADGROUP args) = (js ''BLOCK'' \<in> set args)"
| "blocking_read c = False"

datatype level = Info | Warn | Err

text \<open>One constructor for each log line of the source, with the values it prints.\<close>

datatype log_message =
    RateLimited jsstring
  | CircuitOpen int
  | CircuitHalfOpen
  | AutoRepairFailed jsstring jsstring int
  | AutoRepaired jsstring
  | Forwarding jsstring jsstring
  | EngineTimeout int jsstring int
  | EngineError jsstring
  | ResponseReceived jsstring
  | CaughtError jsstring jsstring jsstring
  | SkippingMalformed jsstring
  | DeadLettering jsstring int
  | Delivering jsstring jsstring
  | DeliveryFailed jsstring jsstring
  | ListenerError jsstring

text \<open>
  What a run does, in order: broker commands with the connection they are sent on, calls
  of the breaker's \<open>recordFailure\<close> and \<open>recordSuccess\<close> and of the limiter's \<open>record\<close>,
  log lines, child processes started with \<open>execFile\<close>, and exceptions raised into the
  hook's \<open>try\<close> block.
\<close>

datatype event =
    Broker client command
  | RecordFailure
  | RecordSuccess
  | LimiterRecord jsstring
  | Log level log_message
  | Exec jsstring "jsstring list"
  | Thrown exn

fun broker_commands :: "event list \<Rightarrow> (client \<times> command) list" where
  "broker_commands [] = []"
| "broker_commands (Broker c cmd # es) = (c, cmd) # broker_commands es"
| "broker_commands (e # es) = broker_commands es"

fun executions :: "event list \<Rightarrow> (jsstring \<times> jsstring list) list" where
  "executions [] = []"
| "executions (Exec bin args # es) = (bin, args) # executions es"
| "executions (e # es) = executions es"

text \<open>The names of a flat list of field/value arguments, and the pairs.\<close>

fun field_pairs :: "jsstring list \<Rightarrow> (jsstring \<times> jsstring) list" where
  "field_pairs (k # v # rest) = (k, v) # field_pairs rest"
| "field_pairs [k] = [(k, [])]"
| "field_pairs [] = []"

definition field_names :: "jsstring list \<Rightarrow> jsstring list" where
  "field_names args = map fst (field_pairs args)"

text \<open>
  What the world outside answers during one invocation of the hook or of the tool: the
  clock, \<open>randomUUID()\<close>, the status of the two connections at \<open>isRedisReady()\<close>, the result
  of \<open>ensureConnected()\<close> (which forces a reconnect and polls the status for up to 3 s),
  whether \<open>xadd\<close> throws, what \<open>brpop\<close> gives (it throws, or times out with \<open>null\<close>, or
  pops \<open>[key, value]\<close>), and \<open>JSON.parse\<close> (\<open>None\<close> where it throws).
\<close>

record bridge_env =
  now_sync :: int
  randomUUID :: jsstring
  redis_status :: jsstring
  redisBlocking_status :: jsstring
  ensureConnected :: bool
  now_xadd :: int
  xadd_outcome :: "exn option"
  brpop_outcome :: "exn + (jsstring \<times> jsstring) option"
  JSON_parse :: "jsstring \<Rightarrow> json option"
  now_settled :: int

definition isRedisReady :: "bridge_env \<Rightarrow> bool" where
  "isRedisReady env = (redis_status env = js ''ready'' \<and> redisBlocking_status env = js ''ready'')"

text \<open>\<open>try { parsed = JSON.parse(raw) } catch { parsed = { text: raw } }\<close>\<close>

definition parse_response :: "bridge_env \<Rightarrow> jsstring \<Rightarrow> json" where
  "parse_response env raw =
     (case JSON_parse env raw of
        Some v \<Rightarrow> v
      | None \<Rightarrow> JObj [(js ''text'', JStr raw)])"

definition string_of :: "json option \<Rightarrow> jsstring" where
  "string_of v = (case v of None \<Rightarrow> js ''undefined'' | Some x \<Rightarrow> js_string x)"

section \<open>The before\_reply hook (index.ts)\<close>

text \<open>
  The host's event, as far as the hook reads it, and the hook's reply. \<open>commandBody\<close> is
  a string, as its place in \<open>xaddArgs: string[]\<close> requires; the other properties may be
  missing. The text of a reply is a value: what \<open>parsed.text\<close> holds need not be a string.
\<close>

record hook_event =
  commandBody :: jsstring
  ev_from :: "jsstring option"
  ev_channel :: "jsstring option"
  ev_accountId :: "jsstring option"
  ev_sessionKey :: "jsstring option"
  senderName :: "jsstring option"
  senderUsername :: "jsstring option"
  senderId :: "jsstring option"
  transcript :: "jsstring option"

record reply =
  reply_text :: json
  isError :: bool

text \<open>The state \<open>register\<close> creates for the hook: the breaker and the rate limiter.\<close>

record plugin_state =
  the_breaker :: breaker
  rateLimiter :: limiter

definition optional_field :: "jsstring \<Rightarrow> jsstring option \<Rightarrow> jsstring list" where
  "optional_field name v = (if present v then [name, or_else v []] else [])"

definition xaddArgs :: "jsstring \<Rightarrow> jsstring \<Rightarrow> hook_event \<Rightarrow> int \<Rightarrow> jsstring list" where
  "xaddArgs correlationId agentId event now =
     [js ''correlationId'', correlationId,
      js ''message'', commandBody event,
      js ''from'', or_else (ev_from event) (js ''proxy''),
      js ''agent'', agentId,
      js ''channel'', or_else (ev_channel event) (js ''unknown''),
      js ''accountId'', or_else (ev_accountId event) agentId,
      js ''timestamp'', num_str now,
      js ''sessionKey'', or_else (ev_sessionKey event)
         (or_else (ev_channel event) (js ''unknown'') @ js '':'' @
          or_else (ev_accountId event) agentId @ js '':'' @
          or_else (ev_from event) (js ''anon'')),
      js ''protocolVersion'', PROTOCOL_VERSION]
     @ optional_field (js ''senderName'') (senderName event)
     @ optional_field (js ''senderUsername'') (senderUsername event)
     @ optional_field (js ''senderId'') (senderId event)
     @ optional_field (js ''transcript'') (transcript event)"

definition unavailable_reply :: reply where
  "unavailable_reply =
     \<lparr>reply_text = JStr (js ''Le moteur Effectual est temporairement indisponible. Reessaie dans quelques secondes.''),
      isError = True\<rparr>"

definition connection_lost_reply :: reply where
  "connection_lost_reply =
     \<lparr>reply_text = JStr (js ''Le moteur Effectual est temporairement indisponible (connexion Redis perdue). Reessaie dans quelques secondes.''),
      isError = True\<rparr>"

definition timeout_reply :: reply where
  "timeout_reply =
     \<lparr>reply_text = JStr (js ''The engine did not respond in time. Please try again.''),
      isError = True\<rparr>"

definition caught_reply :: "exn \<Rightarrow> reply" where
  "caught_reply err =
     \<lparr>reply_text = JStr (js ''Le moteur Effectual a rencontre une erreur: '' @ message_of err @
        js ''. Reessaie dans quelques secondes.''),
      isError = True\<rparr>"

text \<open>
  The body of the hook's \<open>try\<close> block (index.ts, lines 539 to 616): auto-repair, the
  append, the blocking pop and the parsing of what was popped. The result is \<open>Inl err\<close>
  when the block throws \<open>err\<close>, with the breaker as the block left it.
\<close>

definition try_block :: "RedisBridgeConfig \<Rightarrow> jsstring \<Rightarrow> hook_event \<Rightarrow> bridge_env \<Rightarrow> breaker
    \<Rightarrow> (exn + reply) \<times> breaker \<times> event list" where
  "try_block config agentId event env b =
     (let correlationId = randomUUID env;
          responseKey = RESPONSE_KEY_PREFIX @ correlationId
      in
      if \<not> isRedisReady env \<and> \<not> ensureConnected env then
        (let b1 = recordFailure (now_settled env) b
         in (Inr connection_lost_reply, b1,
             [RecordFailure, Log Err (AutoRepairFailed agentId correlationId (consecutiveFailures b1))]))
      else
        (let ev1 = (if \<not> isRedisReady env then [Log Info (AutoRepaired agentId)] else [])
                   @ [Log Info (Forwarding agentId correlationId),
                      Broker Redis (XADD STREAM_INBOUND (js ''*'')
                        (xaddArgs correlationId agentId event (now_xadd env)))]
         in case xadd_outcome env of
              Some err \<Rightarrow> (Inl err, b, ev1 @ [Thrown err])
            | None \<Rightarrow>
               (let ev2 = ev1 @ [Broker RedisBlocking (BRPOP responseKey (timeoutSeconds config))]
                in case brpop_outcome env of
                     Inl err \<Rightarrow> (Inl err, b, ev2 @ [Thrown err])
                   | Inr None \<Rightarrow>
                      (let b1 = recordFailure (now_settled env) b
                       in (Inr timeout_reply, b1,
                           ev2 @ [RecordFailure,
                                  Log Warn (EngineTimeout (timeoutSeconds config) correlationId
                                    (consecutiveFailures b1))]))
                   | Inr (Some (key, raw)) \<Rightarrow>
                      (let parsed = parse_response env raw
                       in case get_prop parsed (js ''error'') of
                            Inl err \<Rightarrow> (Inl err, b, ev2 @ [Thrown err])
                          | Inr error \<Rightarrow>
                             if truthy error then
                               (Inr \<lparr>reply_text = JStr (js ''Engine error: '' @ string_of error),
                                     isError = True\<rparr>,
                                b, ev2 @ [Log Err (EngineError (string_of error))])
                             else
                               (case get_prop parsed (js ''text'') of
                                  Inl err \<Rightarrow> (Inl err, b, ev2 @ [Thrown err])
                                | Inr t \<Rightarrow>
                                   (Inr \<lparr>reply_text = nullish t (JStr raw), isError = False\<rparr>,
                                    recordSuccess b,
                                    ev2 @ [RecordSuccess, Log Info (ResponseReceived correlationId)]))))))"

text \<open>
  Lines 518 to 631: the breaker's fast-fail, then the \<open>try\<close> block with its \<open>catch\<close>,
  which records a failure and turns the exception into a reply.
\<close>

definition guarded_forward :: "RedisBridgeConfig \<Rightarrow> jsstring \<Rightarrow> hook_event \<Rightarrow> bridge_env \<Rightarrow> breaker
    \<Rightarrow> reply \<times> breaker \<times> event list" where
  "guarded_forward config agentId event env b =
     (if isOpen (now_sync env) b then
        (unavailable_reply, b, [Log Warn (CircuitOpen (consecutiveFailures b))])
      else
        (let ev0 = (if isHalfOpen (now_sync env) b then [Log Info CircuitHalfOpen] else [])
         in case try_block config agentId event env b of
              (Inr r, b1, evs) \<Rightarrow> (r, b1, ev0 @ evs)
            | (Inl err, b1, evs) \<Rightarrow>
                (caught_reply err, recordFailure (now_settled env) b1,
                 ev0 @ evs @ [RecordFailure,
                   Log Err (CaughtError agentId (randomUUID env) (message_of err))])))"

text \<open>
  \<open>sendAlert(reason, agentId, null, logger)\<close> as the hook calls it: with \<open>cliBinary\<close>
  \<open>null\<close> the call returns before it starts a child process.
\<close>

definition sendAlert :: "RateLimiterConfig \<Rightarrow> int \<Rightarrow> limiter \<Rightarrow> limiter" where
  "sendAlert config now st =
     (if alertChatId config = [] then st
      else if now - lastAlertAt st < alertCooldownSeconds config * 1000 then st
      else snd (stats now (st\<lparr>lastAlertAt := now\<rparr>)))"

text \<open>The heartbeat filter (lines 504 and 505), and the reply it gives.\<close>

definition is_heartbeat :: "jsstring \<Rightarrow> bool" where
  "is_heartbeat body =
     (js_includes body (js ''HEARTBEAT_OK'') \<or> js_includes body (js ''Read HEARTBEAT.md''))"

definition heartbeat_reply :: reply where
  "heartbeat_reply = \<lparr>reply_text = JStr (js ''HEARTBEAT_OK''), isError = False\<rparr>"

text \<open>An agent is bridged when the context names it and the configuration lists it.\<close>

definition bridged :: "RedisBridgeConfig \<Rightarrow> jsstring option \<Rightarrow> bool" where
  "bridged config ctx_agentId = (present ctx_agentId \<and> isEngineAgent (or_else ctx_agentId []) config)"

text \<open>
  The hook (index.ts, lines 498 to 632). \<open>Inr None\<close> is \<open>undefined\<close>, the pass-through;
  \<open>Inl err\<close> would be an exception that reaches the host.
\<close>

definition before_reply :: "RedisBridgeConfig \<Rightarrow> RateLimiterConfig \<Rightarrow> jsstring option \<Rightarrow> hook_event
    \<Rightarrow> bridge_env \<Rightarrow> plugin_state \<Rightarrow> (exn + reply option) \<times> plugin_state \<times> event list" where
  "before_reply config rl ctx_agentId event env st =
     (if \<not> bridged config ctx_agentId then
        (Inr None, st, [])
      else
        (let agentId = or_else ctx_agentId [];
             body = commandBody event
         in
         if is_heartbeat body then (Inr (Some heartbeat_reply), st, [])
         else
           (case check rl (now_sync env) (now_sync env) agentId (rateLimiter st) of
              (rateLimitMsg, lim1) \<Rightarrow>
                if present rateLimitMsg then
                  (Inr (Some \<lparr>reply_text = JStr (or_else rateLimitMsg []), isError = True\<rparr>),
                   st\<lparr>rateLimiter := sendAlert rl (now_sync env) (snd (stats (now_sync env) lim1))\<rparr>,
                   [Log Warn (RateLimited agentId)])
                else
                  (case guarded_forward config agentId event env (the_breaker st) of
                     (r, b1, evs) \<Rightarrow>
                       (Inr (Some r),
                        \<lparr>the_breaker = b1,
                         rateLimiter = record_request (now_sync env) agentId lim1\<rparr>,
                        LimiterRecord agentId # evs)))))"

text \<open>
  A sequence of invocations of the hook, each with its context, its event and what the
  world answers; the state is handed from one to the next.
\<close>

fun run_hooks :: "RedisBridgeConfig \<Rightarrow> RateLimiterConfig
    \<Rightarrow> (jsstring option \<times> hook_event \<times> bridge_env) list \<Rightarrow> plugin_state
    \<Rightarrow> ((exn + reply option) \<times> event list) list \<times> plugin_state" where
  "run_hooks config rl [] st = ([], st)"
| "run_hooks config rl ((ctx_agentId, event, env) # rest) st =
     (case before_reply config rl ctx_agentId event env st of
        (res, st1, evs) \<Rightarrow>
          (case run_hooks config rl rest st1 of
             (results, st2) \<Rightarrow> ((res, evs) # results, st2)))"

text \<open>
  \<open>recordFailure\<close> called at each of the given times in turn, with no \<open>recordSuccess\<close>
  in between.
\<close>

definition failures_in_a_row :: "int list \<Rightarrow> breaker \<Rightarrow> breaker" where
  "failures_in_a_row stamps b = foldl (\<lambda>b now. recordFailure now b) b stamps"

text \<open>
  The mandatory fields of an inbound entry as the specification lists them (section 3);
  the type \<open>BridgeInboundEntry\<close> of src/types.ts requires \<open>correlationId\<close>,
  \<open>message\<close>, \<open>from\<close>, \<open>agent\<close>, \<open>channel\<close> and \<open>timestamp\<close>.
\<close>

definition spec_mandatory_fields :: "jsstring list" where
  "spec_mandatory_fields =
     [js ''correlationId'', js ''message'', js ''from'', js ''agent'', js ''channel'',
      js ''accountId'', js ''sessionKey'', js ''timestamp'', js ''protocolVersion'']"

definition BridgeInboundEntry_fields :: "jsstring list" where
  "BridgeInboundEntry_fields =
     [js ''correlationId'', js ''message'', js ''from'', js ''agent'', js ''channel'',
      js ''timestamp'']"

section \<open>The redis\_bridge tool (src/tools.ts)\<close>

text \<open>
  \<open>createRedisBridgeTool(redis, config, ctx).execute(_id, params)\<close>: \<open>redis\<close> is the
  connection the tool was created with, \<open>ctx\<close> gives \<open>agentId\<close> and \<open>messageChannel\<close>,
  and \<open>params.message\<close> is the one parameter. The result is \<open>Inl err\<close> when the call throws
  and otherwise the text of the content block.
\<close>

definition tool_xaddArgs :: "jsstring \<Rightarrow> jsstring \<Rightarrow> jsstring \<Rightarrow> jsstring \<Rightarrow> int \<Rightarrow> jsstring list" where
  "tool_xaddArgs correlationId message agent channel now =
     [js ''correlationId'', correlationId,
      js ''message'', message,
      js ''from'', js ''proxy'',
      js ''agent'', agent,
      js ''channel'', channel,
      js ''timestamp'', num_str now]"

definition execute :: "client \<Rightarrow> RedisBridgeConfig \<Rightarrow> jsstring option \<Rightarrow> jsstring option \<Rightarrow> jsstring option
    \<Rightarrow> bridge_env \<Rightarrow> (exn + json) \<times> event list" where
  "execute redis config ctx_agentId ctx_messageChannel params_message env =
     (let message = or_else params_message []
      in
      if trim message = [] then (Inl (Error (js ''message is required'')), [])
      else
        (let correlationId = randomUUID env;
             responseKey = RESPONSE_KEY_PREFIX @ correlationId;
             agent = or_else ctx_agentId (js ''unknown'');
             channel = or_else ctx_messageChannel (js ''unknown'');
             ev1 = [Broker redis (XADD STREAM_INBOUND (js ''*'')
                      (tool_xaddArgs correlationId message agent channel (now_xadd env)))]
         in case xadd_outcome env of
              Some err \<Rightarrow> (Inl err, ev1)
            | None \<Rightarrow>
               (let ev2 = ev1 @ [Broker redis (BRPOP responseKey (timeoutSeconds config))]
                in case brpop_outcome env of
                     Inl err \<Rightarrow> (Inl err, ev2)
                   | Inr None \<Rightarrow>
                       (Inl (Error (js ''Engine response timed out after '' @
                          num_str (timeoutSeconds config) @ js ''s'')), ev2)
                   | Inr (Some (key, raw)) \<Rightarrow>
                      (let parsed = parse_response env raw
                       in case get_prop parsed (js ''error'') of
                            Inl err \<Rightarrow> (Inl err, ev2)
                          | Inr error \<Rightarrow>
                             if truthy error then
                               (Inl (Error (js ''Engine error: '' @ string_of error)), ev2)
                             else
                               (case get_prop parsed (js ''text'') of
                                  Inl err \<Rightarrow> (Inl err, ev2)
                                | Inr t \<Rightarrow> (Inr (nullish t (JStr raw)), ev2))))))"

text \<open>
  The tool factory of \<open>register\<close> (index.ts, lines 483 to 489): no tool for an agent that
  is not bridged, and otherwise the tool created with the connection \<open>redis\<close>.
\<close>

definition registered_tool :: "RedisBridgeConfig \<Rightarrow> jsstring option \<Rightarrow> jsstring option
    \<Rightarrow> (jsstring option \<Rightarrow> bridge_env \<Rightarrow> (exn + json) \<times> event list) option" where
  "registered_tool config ctx_agentId ctx_messageChannel =
     (if \<not> bridged config ctx_agentId then None
      else Some (execute Redis config ctx_agentId ctx_messageChannel))"

section \<open>The outbound listener (src/listener.ts)\<close>

text \<open>One detail of an \<open>XPENDING\<close> reply: \<open>[entryId, consumer, idleTime, deliveryCount]\<close>.\<close>

record pending_detail =
  pd_entryId :: jsstring
  pd_consumer :: jsstring
  pd_idleTime :: int
  pd_deliveryCount :: "int option"

text \<open>
  What the world outside answers during one \<open>processEntry\<close>: the \<open>XPENDING\<close> reply (or
  the exception), whether each of the three \<open>xack\<close> calls throws, whether
  \<open>openclaw --version\<close> runs, the summary that replaces a message the content server
  published (\<open>None\<close> when \<open>tryPublish\<close> gives \<open>null\<close>), and whether the delivery of chunk
  \<open>i\<close> throws.
\<close>

record listener_env =
  xpending_outcome :: "exn + pending_detail list"
  xack_malformed :: "exn option"
  xack_deadletter :: "exn option"
  xack_delivered :: "exn option"
  openclaw_runs :: bool
  published_summary :: "jsstring option"
  exec_outcome :: "nat \<Rightarrow> exn option"

definition DEAD_LETTER_MAX_RETRIES :: int where
  "DEAD_LETTER_MAX_RETRIES = 5"

text \<open>The loop that parses the field pairs into the object \<open>data\<close>.\<close>

fun parse_fields :: "jsstring list \<Rightarrow> (jsstring \<rightharpoonup> jsstring) \<Rightarrow> (jsstring \<rightharpoonup> jsstring)" where
  "parse_fields (k # v # rest) data = parse_fields rest (data(k \<mapsto> v))"
| "parse_fields [k] data = data(k \<mapsto> [])"
| "parse_fields [] data = data"

definition malformed :: "(jsstring \<rightharpoonup> jsstring) \<Rightarrow> bool" where
  "malformed entry =
     (\<not> present (entry (js ''message'')) \<or> \<not> present (entry (js ''to'')) \<or>
      \<not> present (entry (js ''channel'')))"

definition send_args :: "(jsstring \<rightharpoonup> jsstring) \<Rightarrow> jsstring \<Rightarrow> jsstring list" where
  "send_args entry chunk =
     [js ''message'', js ''send'',
      js ''--channel'', or_else (entry (js ''channel'')) [],
      js ''--target'', or_else (entry (js ''to'')) [],
      js ''--message'', chunk]
     @ (if present (entry (js ''accountId''))
        then [js ''--account'', or_else (entry (js ''accountId'')) []] else [])"

text \<open>
  The \<open>for\<close> loop over the chunks: chunk \<open>i\<close> is delivered with \<open>execFile\<close>, and the
  loop stops at the first delivery that throws.
\<close>

fun send_chunks :: "(nat \<Rightarrow> exn option) \<Rightarrow> jsstring \<Rightarrow> (jsstring \<rightharpoonup> jsstring) \<Rightarrow> nat \<Rightarrow> jsstring list
    \<Rightarrow> exn option \<times> event list" where
  "send_chunks outcome cliBinary entry i [] = (None, [])"
| "send_chunks outcome cliBinary entry i (chunk # rest) =
     (case outcome i of
        Some err \<Rightarrow> (Some err, [Exec cliBinary (send_args entry chunk)])
      | None \<Rightarrow>
         (case send_chunks outcome cliBinary entry (Suc i) rest of
            (r, evs) \<Rightarrow> (r, Exec cliBinary (send_args entry chunk) # evs)))"

text \<open>
  The delivery \<open>try\<close> block of \<open>processEntry\<close> with its \<open>catch\<close> (lines 405 to 453):
  resolve the binary if there is none yet, replace a long message by the summary of what
  was published, split, deliver every chunk, acknowledge. A failure is logged and the entry
  is not acknowledged. The result is the value of \<open>cliBinary\<close> and the events, \<open>None\<close>
  when \<open>splitMessage\<close> does not return.
\<close>

definition deliver :: "client \<Rightarrow> RedisBridgeConfig \<Rightarrow> jsstring \<Rightarrow> (jsstring \<rightharpoonup> jsstring) \<Rightarrow> listener_env
    \<Rightarrow> jsstring option \<Rightarrow> (jsstring option \<times> event list) option" where
  "deliver redis config entryId entry env cliBinary =
     (let ev0 = [Log Info (Delivering (or_else (entry (js ''to'')) []) (or_else (entry (js ''channel'')) []))];
          ev1 = ev0 @ (if present cliBinary then [] else [Exec (js ''openclaw'') [js ''--version'']]);
          bin = (if present cliBinary then or_else cliBinary []
                 else if openclaw_runs env then js ''openclaw'' else js ''clawdbot'');
          message = or_else (entry (js ''message'')) [];
          messageToSend =
            (if length message > PUBLISH_THRESHOLD
             then (case published_summary env of Some summary \<Rightarrow> summary | None \<Rightarrow> message)
             else message)
      in case splitMessage messageToSend MAX_MSG_LEN of
           None \<Rightarrow> None
         | Some chunks \<Rightarrow>
            (case send_chunks (exec_outcome env) bin entry 0 chunks of
               (Some err, evs) \<Rightarrow>
                 Some (Some bin, ev1 @ evs @ [Log Err (DeliveryFailed entryId (message_of err))])
             | (None, evs) \<Rightarrow>
                 (let ev2 = ev1 @ evs @ [Broker redis (XACK STREAM_OUTBOUND (consumerGroup config) entryId)]
                  in case xack_delivered env of
                       Some err \<Rightarrow> Some (Some bin, ev2 @ [Log Err (DeliveryFailed entryId (message_of err))])
                     | None \<Rightarrow> Some (Some bin, ev2))))"

text \<open>
  \<open>processEntry(entryId, fields, logger)\<close> of the listener created with the connection
  \<open>redis\<close>; \<open>cliBinary\<close> is the listener's variable. The result is \<open>Inl err\<close> when the
  call throws, the new \<open>cliBinary\<close>, and the events.
\<close>

definition processEntry :: "client \<Rightarrow> RedisBridgeConfig \<Rightarrow> jsstring \<Rightarrow> jsstring list \<Rightarrow> listener_env
    \<Rightarrow> jsstring option \<Rightarrow> ((exn + unit) \<times> jsstring option \<times> event list) option" where
  "processEntry redis config entryId entry_fields env cliBinary =
     (let entry = parse_fields entry_fields Map.empty;
          ack = Broker redis (XACK STREAM_OUTBOUND (consumerGroup config) entryId);
          inspect = Broker redis (XPENDING STREAM_OUTBOUND (consumerGroup config) entryId entryId 1);
          go_on = (\<lambda>evs. case deliver redis config entryId entry env cliBinary of
                            None \<Rightarrow> None
                          | Some (bin, evs') \<Rightarrow> Some (Inr (), bin, evs @ evs'))
      in
      if malformed entry then
        (case xack_malformed env of
           Some err \<Rightarrow> Some (Inl err, cliBinary, [Log Warn (SkippingMalformed entryId), ack])
         | None \<Rightarrow> Some (Inr (), cliBinary, [Log Warn (SkippingMalformed entryId), ack]))
      else
        (case xpending_outcome env of
           Inl err \<Rightarrow> go_on [inspect]
         | Inr [] \<Rightarrow> go_on [inspect]
         | Inr (detail # others) \<Rightarrow>
            (let deliveryCount = (case pd_deliveryCount detail of Some n \<Rightarrow> n | None \<Rightarrow> 0)
             in if deliveryCount > DEAD_LETTER_MAX_RETRIES then
                  (case xack_deadletter env of
                     None \<Rightarrow>
                       Some (Inr (), cliBinary,
                             [inspect, Log Err (DeadLettering entryId deliveryCount), ack])
                   | Some err \<Rightarrow>
                       go_on [inspect, Log Err (DeadLettering entryId deliveryCount), ack])
                else go_on [inspect])))"

text \<open>
  One turn of the \<open>while\<close> loop of \<open>pollLoop\<close>: the blocking \<open>XREADGROUP\<close>, then
  \<open>processEntry\<close> for each entry read, in order. An exception is caught by the loop and
  logged. \<open>entries\<close> gives each entry with what the world answers while it is processed.
\<close>

definition readgroup_args :: "RedisBridgeConfig \<Rightarrow> jsstring list" where
  "readgroup_args config =
     [js ''GROUP'', consumerGroup config, consumerName config,
      js ''COUNT'', js ''10'', js ''BLOCK'', js ''5000'',
      js ''STREAMS'', STREAM_OUTBOUND, js ''>'']"

fun process_all :: "client \<Rightarrow> RedisBridgeConfig \<Rightarrow> (jsstring \<times> jsstring list \<times> listener_env) list
    \<Rightarrow> jsstring option \<Rightarrow> (jsstring option \<times> event list) option" where
  "process_all redis config [] cliBinary = Some (cliBinary, [])"
| "process_all redis config ((entryId, entry_fields, env) # rest) cliBinary =
     (case processEntry redis config entryId entry_fields env cliBinary of
        None \<Rightarrow> None
      | Some (Inl err, bin, evs) \<Rightarrow> Some (bin, evs @ [Log Err (ListenerError (message_of err))])
      | Some (Inr u, bin, evs) \<Rightarrow>
         (case process_all redis config rest bin of
            None \<Rightarrow> None
          | Some (bin', evs') \<Rightarrow> Some (bin', evs @ evs')))"

definition poll_turn :: "client \<Rightarrow> RedisBridgeConfig
    \<Rightarrow> exn + (jsstring \<times> jsstring list \<times> listener_env) list option
    \<Rightarrow> jsstring option \<Rightarrow> (jsstring option \<times> event list) option" where
  "poll_turn redis config xreadgroup_outcome cliBinary =
     (let read = Broker redis (XREADGROUP (readgroup_args config))
      in case xreadgroup_outcome of
           Inl err \<Rightarrow> Some (cliBinary, [read, Log Err (ListenerError (message_of err))])
         | Inr None \<Rightarrow> Some (cliBinary, [read])
         | Inr (Some entries) \<Rightarrow>
            (case process_all redis config entries cliBinary of
               None \<Rightarrow> None
             | Some (bin, evs) \<Rightarrow> Some (bin, read # evs)))"

text \<open>\<open>ensureConsumerGroup\<close>: the group is created on the listener's connection.\<close>

definition ensureConsumerGroup :: "client \<Rightarrow> RedisBridgeConfig \<Rightarrow> exn option \<Rightarrow> (exn + unit) \<times> event list" where
  "ensureConsumerGroup redis config xgroup_outcome =
     (let create = Broker redis (XGROUP [js ''CREATE'', STREAM_OUTBOUND, consumerGroup config,
                                         js ''0'', js ''MKSTREAM''])
      in case xgroup_outcome of
           None \<Rightarrow> (Inr (), [create])
         | Some err \<Rightarrow>
             if js_includes (message_of err) (js ''BUSYGROUP'') then (Inr (), [create])
             else (Inl err, [create]))"

text \<open>
  \<open>register\<close> creates the listener with the connection \<open>redis\<close>
  (\<open>createOutboundListener(redis, config)\<close>, index.ts line 635).
\<close>

definition listener_client :: client where
  "listener_client = Redis"

section \<open>Inputs of the worked examples\<close>

definition tripped :: breaker where
  "tripped = \<lparr>threshold = 5, cooldownMs = 15000, failures = 5, openedAt = 1000\<rparr>"

definition small_limits :: RateLimiterConfig where
  "small_limits =
     \<lparr>maxRequestsPerHour = 3, maxRequestsPerAgentPerHour = 2, alertChatId = [],
      alertCooldownSeconds = 300\<rparr>"

definition busy_limiter :: limiter where
  "busy_limiter =
     \<lparr>globalWindow = [0, 3599000, 3600000],
      agentWindows = [js ''eng-1'' \<mapsto> [0, 3600000], js ''eng-2'' \<mapsto> [3599000]],
      lastAlertAt = 0\<rparr>"

definition bridge_config :: RedisBridgeConfig where
  "bridge_config =
     \<lparr>agents = [js ''eng-1''], redisUrl = js ''redis://localhost:6379'', timeoutSeconds = 120,
      consumerGroup = js ''clawdbot-bridge'', consumerName = js ''clawdbot-1'',
      contentPublisherUrl = [], contentPublisherToken = [], contentPublisherPublicUrl = []\<rparr>"

definition default_limits :: RateLimiterConfig where
  "default_limits =
     \<lparr>maxRequestsPerHour = 60, maxRequestsPerAgentPerHour = 20, alertChatId = [],
      alertCooldownSeconds = 300\<rparr>"

definition said :: "string \<Rightarrow> hook_event" where
  "said body =
     \<lparr>commandBody = js body, ev_from = None, ev_channel = None, ev_accountId = None,
      ev_sessionKey = None, senderName = None, senderUsername = None, senderId = None,
      transcript = None\<rparr>"

definition fresh_state :: plugin_state where
  "fresh_state = \<lparr>the_breaker = createCircuitBreaker None, rateLimiter = createRateLimiter\<rparr>"

definition tripped_state :: plugin_state where
  "tripped_state = \<lparr>the_breaker = tripped, rateLimiter = createRateLimiter\<rparr>"

text \<open>A \<open>JSON.parse\<close> for the examples: it knows three texts and throws on the rest.\<close>

definition parse_few :: "jsstring \<Rightarrow> json option" where
  "parse_few raw =
     (if raw = js ''{}'' then Some (JObj [])
      else if raw = js ''null'' then Some JNull
      else if raw = js ''42'' then Some (JNum False (js ''42''))
      else None)"

text \<open>
  The world in which the engine answers \<open>raw\<close>, and two variations of it: the engine
  is silent, the append fails.
\<close>

definition answers :: "string \<Rightarrow> bridge_env" where
  "answers raw =
     \<lparr>now_sync = 2000, randomUUID = js ''id-1'', redis_status = js ''ready'',
      redisBlocking_status = js ''ready'', ensureConnected = True, now_xadd = 2001,
      xadd_outcome = None,
      brpop_outcome = Inr (Some (js ''bridge:response:id-1'', js raw)),
      JSON_parse = parse_few, now_settled = 2500\<rparr>"

definition silent :: bridge_env where
  "silent = (answers [])\<lparr>brpop_outcome := Inr None\<rparr>"

definition append_fails :: bridge_env where
  "append_fails = (answers [])\<lparr>xadd_outcome := Some (Error (js ''Connection is closed.''))\<rparr>"




text \<open>
  An outbound entry, and the world in which the pending list reports \<open>n\<close> deliveries of
  it; in \<open>ack_fails\<close> the acknowledgement of the dead-letter branch throws.
\<close>

definition hello_fields :: "jsstring list" where
  "hello_fields = [js ''message'', js ''hello'', js ''to'', js ''42'', js ''channel'', js ''telegram'']"

definition redelivered :: "int \<Rightarrow> listener_env" where
  "redelivered n =
     \<lparr>xpending_outcome = Inr [\<lparr>pd_entryId = js ''1-0'', pd_consumer = js ''clawdbot-1'',
                                pd_idleTime = 60000, pd_deliveryCount = Some n\<rparr>],
      xack_malformed = None, xack_deadletter = None, xack_delivered = None,
      openclaw_runs = True, published_summary = None, exec_outcome = (\<lambda>i. None)\<rparr>"

definition ack_fails :: listener_env where
  "ack_fails = (redelivered 6)\<lparr>xack_deadletter := Some (Error (js ''Connection is closed.''))\<rparr>"

definition pending_fails :: listener_env where
  "pending_fails = (redelivered 6)\<lparr>xpending_outcome := Inl (Error (js ''Connection is closed.''))\<rparr>"

section \<open>Literals\<close>

lemma of_char_word_eq_iff: "(of_char c :: jschar) = of_char d \<longleftrightarrow> c = d"
proof
  assume eq: "(of_char c :: jschar) = of_char d"
  have u: "unat (of_char x :: jschar) = of_char x" for x
  proof -
    have "(of_char x :: jschar) = of_nat (of_char x)"
      by (simp only: of_nat_of_char)
    moreover have "(of_char x :: nat) < 2 ^ 16"
    proof -
      have "(of_char x :: nat) mod 256 = of_char x"
        by simp
      then have "(of_char x :: nat) < 256"
        by (metis mod_less_divisor zero_less_numeral)
      then have "(of_char x :: nat) < 65536"
        by linarith
      then show ?thesis
        by simp
    qed
    ultimately show ?thesis
      by (simp add: unat_of_nat)
  qed
  from eq have "unat (of_char c :: jschar) = unat (of_char d :: jschar)"
    by simp
  then have "(of_char c :: nat) = of_char d"
    by (simp only: u)
  then show "c = d"
    using inj_of_char [where ?'a = nat] by (simp add: inj_def)
qed simp

lemma inj_js_char: "inj (of_char :: char \<Rightarrow> jschar)"
  by (simp add: inj_def of_char_word_eq_iff)

lemma js_eq_iff [simp]: "js a = js b \<longleftrightarrow> a = b"
  by (simp add: js_def inj_map_eq_map [OF inj_js_char])

lemma js_Nil_iff [simp]: "js a = [] \<longleftrightarrow> a = []" "[] = js a \<longleftrightarrow> a = []"
  by (auto simp: js_def)

lemma js_append [simp]: "js a @ js b = js (a @ b)"
  by (simp add: js_def)

lemma sublist_map_inj_iff:
  assumes "inj f"
  shows "sublist (map f xs) (map f ys) \<longleftrightarrow> sublist xs ys"
proof
  assume "sublist (map f xs) (map f ys)"
  then obtain xs' where "sublist xs' ys" "map f xs = map f xs'"
    using sublist_map_rightE by blast
  then show "sublist xs ys"
    using assms by simp
qed (rule map_mono_sublist)

lemma js_includes_js [simp]: "js_includes (js a) (js b) \<longleftrightarrow> sublist b a"
  by (simp add: js_includes_def js_def sublist_map_inj_iff inj_js_char)

section \<open>Unfolding the worked examples\<close>

lemma length_js [simp]: "length (js s) = length s"
  by (simp add: js_def)

lemma trim_literal: "trim (js ''Bonjour'') = js ''Bonjour''"
  by (simp add: trim_def trimStart_def trimEnd_def js_def is_ws_def)

lemmas breaker_defs = getState_def recordSuccess_def recordFailure_def isOpen_def isHalfOpen_def

lemmas hook_eval = bridge_config_def default_limits_def said_def fresh_state_def tripped_state_def
  tripped_def answers_def silent_def append_fails_def bridged_def isEngineAgent_def parse_few_def
  is_heartbeat_def heartbeat_reply_def
  sublist_code check_def getAgentWindow_def createRateLimiter_def createCircuitBreaker_def
  breaker_defs isRedisReady_def pruneWindow_def Let_def DEFAULT_THRESHOLD_def
  DEFAULT_COOLDOWN_MS_def


lemmas listener_eval = hello_fields_def redelivered_def ack_fails_def pending_fails_def
  bridge_config_def processEntry_def deliver_def malformed_def send_args_def splitMessage_def
  STREAM_OUTBOUND_def DEAD_LETTER_MAX_RETRIES_def PUBLISH_THRESHOLD_def MAX_MSG_LEN_def Let_def

section \<open>The circuit breaker\<close>

text \<open>
  Claim C2. With threshold \<open>t\<close> and cooldown \<open>c\<close> (5 and 15000 ms when no option is
  given), the derived state is closed iff \<open>failures < t\<close>; otherwise it is half-open iff
  \<open>now - openedAt \<ge> c\<close>, and open if not. \<open>recordSuccess\<close> sets \<open>failures\<close> and
  \<open>openedAt\<close> to 0 from any state, which closes a breaker whose threshold is positive.
  \<open>recordFailure\<close> adds one to \<open>failures\<close> and, whenever the new count is at least \<open>t\<close>,
  stamps \<open>openedAt\<close> with the present time; so after a failure in the half-open state the
  breaker is open again for a whole cooldown, counted from that failure.
\<close>

theorem circuit_breaker_semantics:
  "(getState now b = Closed \<longleftrightarrow> failures b < threshold b)
   \<and> (\<not> failures b < threshold b \<longrightarrow>
        (getState now b = HalfOpen \<longleftrightarrow> now - openedAt b \<ge> cooldownMs b)
      \<and> (getState now b = Open \<longleftrightarrow> \<not> now - openedAt b \<ge> cooldownMs b))
   \<and> (isOpen now b \<longleftrightarrow> getState now b = Open)
   \<and> (isHalfOpen now b \<longleftrightarrow> getState now b = HalfOpen)
   \<and> recordSuccess b = b\<lparr>failures := 0, openedAt := 0\<rparr>
   \<and> (0 < threshold b \<longrightarrow> getState now (recordSuccess b) = Closed)
   \<and> failures (recordFailure now b) = failures b + 1
   \<and> threshold (recordFailure now b) = threshold b
   \<and> cooldownMs (recordFailure now b) = cooldownMs b
   \<and> (failures b + 1 \<ge> threshold b \<longrightarrow> openedAt (recordFailure now b) = now)
   \<and> (failures b + 1 < threshold b \<longrightarrow> openedAt (recordFailure now b) = openedAt b)
   \<and> (getState now b = HalfOpen \<longrightarrow>
        (getState later (recordFailure now b) = Open \<longleftrightarrow> later - now < cooldownMs b))
   \<and> threshold (createCircuitBreaker None) = 5
   \<and> cooldownMs (createCircuitBreaker None) = 15000
   \<and> failures (createCircuitBreaker opts) = 0
   \<and> openedAt (createCircuitBreaker opts) = 0"
  by (auto simp: breaker_defs createCircuitBreaker_def DEFAULT_THRESHOLD_def
      DEFAULT_COOLDOWN_MS_def Let_def)

theorem circuit_breaker_semantics_witness:
  "getState 16000 tripped = HalfOpen
   \<and> getState 15999 tripped = Open
   \<and> getState 16000 (recordSuccess tripped) = Closed
   \<and> openedAt (recordFailure 16000 tripped) = 16000
   \<and> getState 30999 (recordFailure 16000 tripped) = Open
   \<and> getState 31000 (recordFailure 16000 tripped) = HalfOpen
   \<and> openedAt (recordFailure 7 (createCircuitBreaker None)) = 0"
  using circuit_breaker_semantics [of 16000 tripped 30999 None]
    circuit_breaker_semantics [of 15999 tripped 31000 None]
    circuit_breaker_semantics [of 7 "createCircuitBreaker None" 0 None]
  by (simp add: tripped_def breaker_defs createCircuitBreaker_def DEFAULT_THRESHOLD_def
      DEFAULT_COOLDOWN_MS_def Let_def)

section \<open>The message splitter\<close>

lemma lastIndexFrom_cases:
  "lastIndexFrom s pat n = - 1 \<or>
   (0 \<le> lastIndexFrom s pat n \<and> nat (lastIndexFrom s pat n) \<le> n \<and>
    matches_at s pat (nat (lastIndexFrom s pat n)))"
  by (induction n) (auto simp: nat_add_distrib)

lemma lastIndexOf_found:
  assumes "0 \<le> lastIndexOf s pat position"
  shows "nat (lastIndexOf s pat position) \<le> nat position"
    and "matches_at s pat (nat (lastIndexOf s pat position))"
  using assms lastIndexFrom_cases [of s pat "min (nat position) (length s)"]
  by (auto simp: lastIndexOf_def)

lemma matches_at_split:
  assumes "matches_at s pat k"
  shows "s = take k s @ pat @ drop (k + length pat) s"
proof -
  have "drop k s = take (length pat) (drop k s) @ drop (length pat) (drop k s)"
    by (simp only: append_take_drop_id)
  with assms have "drop k s = pat @ drop (k + length pat) s"
    by (simp add: matches_at_def add.commute)
  then show ?thesis
    by (metis append_take_drop_id)
qed

lemma matches_at_length:
  assumes "matches_at s pat k"
  shows "k + length pat \<le> length s \<or> pat = []"
proof -
  from assms have "length (take (length pat) (drop k s)) = length pat"
    by (simp add: matches_at_def)
  then have "length pat \<le> length s - k"
    by simp
  then show ?thesis
    by (cases pat) auto
qed

lemma trimEnd_split: "\<exists>gap. s = trimEnd s @ gap \<and> list_all is_ws gap"
proof -
  have "rev s = takeWhile is_ws (rev s) @ dropWhile is_ws (rev s)"
    by simp
  then have "s = rev (dropWhile is_ws (rev s)) @ rev (takeWhile is_ws (rev s))"
    by (metis rev_append rev_rev_ident)
  moreover have "list_all is_ws (rev (takeWhile is_ws (rev s)))"
    by (simp add: list_all_iff) (metis set_takeWhileD)
  ultimately show ?thesis
    unfolding trimEnd_def by blast
qed

lemma trimStart_split: "\<exists>gap. s = gap @ trimStart s \<and> list_all is_ws gap"
proof -
  have "s = takeWhile is_ws s @ dropWhile is_ws s"
    by simp
  moreover have "list_all is_ws (takeWhile is_ws s)"
    by (simp add: list_all_iff) (metis set_takeWhileD)
  ultimately show ?thesis
    unfolding trimStart_def by blast
qed

lemma length_trimEnd: "length (trimEnd s) \<le> length s"
  unfolding trimEnd_def by (metis length_dropWhile_le length_rev)

lemma length_trimStart: "length (trimStart s) \<le> length s"
  unfolding trimStart_def by (rule length_dropWhile_le)

lemma is_ws_LF: "is_ws LF"
  by (simp add: is_ws_def LF_def)

lemma slice_prefix: "0 \<le> r \<Longrightarrow> slice s 0 r = take (nat r) s"
  by (simp add: slice_def slice_index_def min_def)

lemma slice_from_drop: "0 \<le> r \<Longrightarrow> slice_from s r = drop (nat r) s"
  by (simp add: slice_from_def slice_index_def min_def)

lemma rejoins_single: "rejoins [c] c"
  using rejoins_Cons [of "[]" "[]" "[]" c] rejoins_Nil by simp

lemma splitLoop_cut:
  assumes found: "0 \<le> r" "nat r \<le> maxLen" "matches_at remaining pat (nat r)"
    and pat: "pat \<noteq> []" "list_all is_ws pat"
    and IH: "\<And>rest cs. length rest < length remaining \<Longrightarrow>
       \<exists>out. splitLoop maxLen rest cs = Some (cs @ out) \<and>
         list_all (\<lambda>c. length c \<le> maxLen) out \<and> rejoins out rest"
  shows "\<exists>out. splitLoop maxLen (trimStart (slice_from remaining (r + int (length pat))))
            (chunks @ [trimEnd (slice remaining 0 r)]) = Some (chunks @ out) \<and>
          list_all (\<lambda>c. length c \<le> maxLen) out \<and> rejoins out remaining"
proof -
  let ?k = "nat r"
  let ?head = "take ?k remaining"
  let ?tail = "drop (?k + length pat) remaining"
  have head: "slice remaining 0 r = ?head"
    using found(1) by (rule slice_prefix)
  have tail: "slice_from remaining (r + int (length pat)) = ?tail"
    using found(1) by (simp add: slice_from_drop nat_add_distrib)
  have whole: "remaining = ?head @ pat @ ?tail"
    using found(3) by (rule matches_at_split)
  have fits: "?k + length pat \<le> length remaining"
    using matches_at_length [OF found(3)] pat(1) by simp
  obtain g1 where g1: "?head = trimEnd ?head @ g1" "list_all is_ws g1"
    using trimEnd_split by blast
  obtain g2 where g2: "?tail = g2 @ trimStart ?tail" "list_all is_ws g2"
    using trimStart_split by blast
  have shorter: "length (trimStart ?tail) < length remaining"
  proof -
    have "length (trimStart ?tail) \<le> length ?tail"
      by (rule length_trimStart)
    also have "\<dots> < length remaining"
      using fits pat(1) by (cases pat) auto
    finally show ?thesis .
  qed
  from IH [OF shorter, of "chunks @ [trimEnd ?head]"]
  obtain out where out:
    "splitLoop maxLen (trimStart ?tail) (chunks @ [trimEnd ?head]) = Some ((chunks @ [trimEnd ?head]) @ out)"
    "list_all (\<lambda>c. length c \<le> maxLen) out" "rejoins out (trimStart ?tail)"
    by blast
  have "length (trimEnd ?head) \<le> maxLen"
    using length_trimEnd [of ?head] found(2) by simp
  moreover have "rejoins (trimEnd ?head # out) remaining"
  proof -
    have "list_all is_ws (g1 @ pat @ g2)"
      using g1(2) g2(2) pat(2) by simp
    then have "rejoins (trimEnd ?head # out) (trimEnd ?head @ (g1 @ pat @ g2) @ trimStart ?tail)"
      using out(3) by (rule rejoins_Cons)
    moreover have "trimEnd ?head @ (g1 @ pat @ g2) @ trimStart ?tail = remaining"
      using whole g1(1) g2(1) by (metis append.assoc)
    ultimately show ?thesis by simp
  qed
  ultimately show ?thesis
    using out(1,2) head tail by (intro exI [of _ "trimEnd ?head # out"]) simp
qed

lemma splitLoop_correct:
  assumes "0 < maxLen"
  shows "\<exists>out. splitLoop maxLen remaining chunks = Some (chunks @ out) \<and>
           list_all (\<lambda>c. length c \<le> maxLen) out \<and> rejoins out remaining"
proof (induction remaining arbitrary: chunks rule: length_induct)
  case (1 remaining)
  then have IH: "\<And>rest cs. length rest < length remaining \<Longrightarrow>
       \<exists>out. splitLoop maxLen rest cs = Some (cs @ out) \<and>
         list_all (\<lambda>c. length c \<le> maxLen) out \<and> rejoins out rest"
    by blast
  show ?case
  proof (cases "length remaining > maxLen")
    case False
    then show ?thesis
      by (subst splitLoop.simps) (auto simp: rejoins_single intro: rejoins_Nil)
  next
    case long: True
    let ?p = "lastIndexOf remaining [LF, LF] (int maxLen)"
    let ?l = "lastIndexOf remaining [LF] (int maxLen)"
    show ?thesis
    proof (cases "past_30_percent ?p maxLen")
      case True
      then have "0 \<le> ?p"
        by (simp add: past_30_percent_def)
      then have "\<exists>out. splitLoop maxLen (trimStart (slice_from remaining (?p + int (length [LF, LF]))))
            (chunks @ [trimEnd (slice remaining 0 ?p)]) = Some (chunks @ out) \<and>
          list_all (\<lambda>c. length c \<le> maxLen) out \<and> rejoins out remaining"
        using lastIndexOf_found [of remaining "[LF, LF]" "int maxLen"] IH
        by (intro splitLoop_cut) (simp_all add: is_ws_LF)
      then show ?thesis
        using long True by (subst splitLoop.simps) simp
    next
      case noPara: False
      show ?thesis
      proof (cases "past_30_percent ?l maxLen")
        case True
        then have "0 \<le> ?l"
          by (simp add: past_30_percent_def)
        then have "\<exists>out. splitLoop maxLen (trimStart (slice_from remaining (?l + int (length [LF]))))
              (chunks @ [trimEnd (slice remaining 0 ?l)]) = Some (chunks @ out) \<and>
            list_all (\<lambda>c. length c \<le> maxLen) out \<and> rejoins out remaining"
          using lastIndexOf_found [of remaining "[LF]" "int maxLen"] IH
          by (intro splitLoop_cut) (simp_all add: is_ws_LF)
        then show ?thesis
          using long noPara True by (subst splitLoop.simps) simp
      next
        case False
        let ?head = "take maxLen remaining"
        let ?tail = "drop maxLen remaining"
        have "length ?tail < length remaining"
          using assms long by simp
        from IH [OF this, of "chunks @ [?head]"]
        obtain out where out:
          "splitLoop maxLen ?tail (chunks @ [?head]) = Some ((chunks @ [?head]) @ out)"
          "list_all (\<lambda>c. length c \<le> maxLen) out" "rejoins out ?tail"
          by blast
        have "rejoins (?head # out) (?head @ [] @ ?tail)"
          using out(3) by (intro rejoins_Cons) simp_all
        then have "rejoins (?head # out) remaining"
          by simp
        then show ?thesis
          using long noPara False out(1,2)
          by (subst splitLoop.simps)
            (auto simp: slice_prefix slice_from_drop intro!: exI [of _ "?head # out"])
      qed
    qed
  qed
qed

lemma lastIndexFrom_none:
  "(\<forall>k\<le>n. \<not> matches_at s pat k) \<Longrightarrow> lastIndexFrom s pat n = - 1"
  by (induction n) auto

lemma no_match_in_replicate:
  assumes "a \<noteq> LF"
  shows "\<not> matches_at (replicate m a) (LF # rest) k"
proof
  assume "matches_at (replicate m a) (LF # rest) k"
  then have "take (Suc (length rest)) (replicate (m - k) a) = LF # rest"
    by (simp add: matches_at_def)
  then have "LF \<in> set (replicate (m - k) a)"
    by (metis in_set_takeD list.set_intros(1))
  with assms show False
    by simp
qed

lemma lastIndexOf_replicate:
  "a \<noteq> LF \<Longrightarrow> lastIndexOf (replicate m a) (LF # rest) position = - 1"
  by (simp add: lastIndexOf_def lastIndexFrom_none no_match_in_replicate)

lemma hard_cut_replicate:
  assumes "a \<noteq> LF" and "maxLen < m"
  shows "splitLoop maxLen (replicate m a) chunks
       = splitLoop maxLen (replicate (m - maxLen) a) (chunks @ [replicate maxLen a])"
  using assms
  by (subst splitLoop.simps)
    (simp add: lastIndexOf_replicate past_30_percent_def slice_def slice_from_def slice_index_def
      min_def)

lemma nine_thousand:
  "splitMessage (replicate 9000 0x61) 4000
     = Some [replicate 4000 0x61, replicate 4000 0x61, replicate 1000 0x61]"
proof -
  have a: "(0x61 :: jschar) \<noteq> LF"
    by (simp add: LF_def)
  have "splitLoop 4000 (replicate 9000 (0x61 :: jschar)) []
      = splitLoop 4000 (replicate 5000 0x61) [replicate 4000 0x61]"
    using hard_cut_replicate [OF a, of 4000 9000 "[]"] by simp
  also have "\<dots> = splitLoop 4000 (replicate 1000 0x61) [replicate 4000 0x61, replicate 4000 0x61]"
    using hard_cut_replicate [OF a, of 4000 5000 "[replicate 4000 0x61]"] by simp
  also have "\<dots> = Some [replicate 4000 0x61, replicate 4000 0x61, replicate 1000 0x61]"
    by (subst splitLoop.simps) simp
  finally show ?thesis
    by (simp add: splitMessage_def)
qed

text \<open>
  Claim C4. For a message of at most 4000 code units \<open>splitMessage\<close> returns the message
  as its only chunk. For a longer one it returns (the loop ends), every chunk has at most
  4000 code units, and the message is the chunks in order with only white space between
  and after them.
\<close>

theorem splitMessage_chunks:
  "(length str \<le> 4000 \<longrightarrow> splitMessage str 4000 = Some [str]) \<and>
   (length str > 4000 \<longrightarrow>
      (\<exists>chunks. splitMessage str 4000 = Some chunks \<and>
         list_all (\<lambda>c. length c \<le> 4000) chunks \<and> rejoins chunks str))"
  using splitLoop_correct [of 4000 str "[]"] by (auto simp: splitMessage_def)

theorem splitMessage_chunks_witness:
  "splitMessage (js ''Bonjour'') 4000 = Some [js ''Bonjour''] \<and>
   splitMessage (replicate 9000 0x61) 4000
     = Some [replicate 4000 0x61, replicate 4000 0x61, replicate 1000 0x61] \<and>
   rejoins [replicate 4000 0x61, replicate 4000 0x61, replicate 1000 0x61] (replicate 9000 0x61)"
  using splitMessage_chunks [of "js ''Bonjour''"] splitMessage_chunks [of "replicate 9000 0x61"]
    nine_thousand
  by simp

section \<open>The rate limiter\<close>

lemma dropWhile_sorted_filter:
  "sorted xs \<Longrightarrow> dropWhile (\<lambda>t. t < c) xs = filter (\<lambda>t. \<not> t < (c::int)) xs"
proof (induction xs)
  case Nil
  then show ?case by simp
next
  case (Cons x xs)
  show ?case
  proof (cases "x < c")
    case True
    with Cons show ?thesis by simp
  next
    case False
    with Cons.prems have "\<forall>t\<in>set xs. \<not> t < c"
      by auto
    then have "filter (\<lambda>t. \<not> t < c) xs = xs"
      by (simp add: filter_id_conv)
    with False show ?thesis by simp
  qed
qed

lemma pruneWindow_sorted:
  "sorted window \<Longrightarrow> pruneWindow now window = filter (\<lambda>t. \<not> t < now - 3600000) window"
  by (simp add: pruneWindow_def WINDOW_MS_def dropWhile_sorted_filter)

lemma suffix_pruneWindow: "suffix (pruneWindow now window) window"
  by (simp add: pruneWindow_def suffix_dropWhile)

lemma check_state:
  "snd (check config now_g now_a agentId st) =
     st\<lparr>globalWindow := pruneWindow now_g (globalWindow st),
        agentWindows := (agentWindows st)(agentId \<mapsto> pruneWindow now_a (window_of st agentId))\<rparr>"
  by (simp add: check_def getAgentWindow_def window_of_def Let_def split: option.splits)

lemma check_result:
  "fst (check config now_g now_a agentId st) =
     (if int (length (pruneWindow now_a (window_of st agentId))) \<ge> maxRequestsPerAgentPerHour config
        then Some (agent_limit_message config agentId)
      else if int (length (pruneWindow now_g (globalWindow st))) \<ge> maxRequestsPerHour config
        then Some (global_limit_message config)
      else None)"
  by (simp add: check_def getAgentWindow_def window_of_def Let_def split: option.splits)

text \<open>
  Claim C3. \<open>check(agentId)\<close> returns a message (not \<open>null\<close>) iff, once
  \<open>pruneWindow\<close> has run on the global window and on that agent's window, the agent's
  window has at least \<open>maxRequestsPerAgentPerHour\<close> entries or the global window has at
  least \<open>maxRequestsPerHour\<close>. The agent's limit is tested first: when it is reached the
  message is the agent's, whatever the global window holds. On a window in time order
  \<open>pruneWindow\<close> removes exactly the entries older than one hour. \<open>check\<close> appends
  nothing: afterwards every window is a suffix of what it was.
\<close>

theorem check_semantics:
  "(fst (check config now_g now_a agentId st) \<noteq> None \<longleftrightarrow>
      int (length (pruneWindow now_a (window_of st agentId))) \<ge> maxRequestsPerAgentPerHour config
      \<or> int (length (pruneWindow now_g (globalWindow st))) \<ge> maxRequestsPerHour config)
   \<and> (int (length (pruneWindow now_a (window_of st agentId))) \<ge> maxRequestsPerAgentPerHour config \<longrightarrow>
        fst (check config now_g now_a agentId st) = Some (agent_limit_message config agentId))
   \<and> (int (length (pruneWindow now_a (window_of st agentId))) < maxRequestsPerAgentPerHour config
        \<and> int (length (pruneWindow now_g (globalWindow st))) \<ge> maxRequestsPerHour config \<longrightarrow>
        fst (check config now_g now_a agentId st) = Some (global_limit_message config))
   \<and> (sorted (globalWindow st) \<longrightarrow>
        pruneWindow now_g (globalWindow st) = filter (\<lambda>t. \<not> t < now_g - 3600000) (globalWindow st))
   \<and> (sorted (window_of st agentId) \<longrightarrow>
        pruneWindow now_a (window_of st agentId) = filter (\<lambda>t. \<not> t < now_a - 3600000) (window_of st agentId))
   \<and> globalWindow (snd (check config now_g now_a agentId st)) = pruneWindow now_g (globalWindow st)
   \<and> suffix (globalWindow (snd (check config now_g now_a agentId st))) (globalWindow st)
   \<and> (\<forall>agent. suffix (window_of (snd (check config now_g now_a agentId st)) agent) (window_of st agent))
   \<and> lastAlertAt (snd (check config now_g now_a agentId st)) = lastAlertAt st"
  by (auto simp: check_result check_state pruneWindow_sorted suffix_pruneWindow window_of_def)

theorem check_semantics_witness:
  "fst (check small_limits 3600100 3600100 (js ''eng-1'') busy_limiter) = None
   \<and> fst (check (small_limits\<lparr>maxRequestsPerAgentPerHour := 1\<rparr>) 3600100 3600100 (js ''eng-1'') busy_limiter)
       = Some (agent_limit_message (small_limits\<lparr>maxRequestsPerAgentPerHour := 1\<rparr>) (js ''eng-1''))
   \<and> fst (check (small_limits\<lparr>maxRequestsPerHour := 2\<rparr>) 3600100 3600100 (js ''eng-1'') busy_limiter)
       = Some (global_limit_message (small_limits\<lparr>maxRequestsPerHour := 2\<rparr>))
   \<and> globalWindow (snd (check small_limits 3600100 3600100 (js ''eng-1'') busy_limiter)) = [3599000, 3600000]
   \<and> pruneWindow 3600100 (window_of busy_limiter (js ''eng-1'')) = [3600000]"
  using check_semantics [of small_limits 3600100 3600100 "js ''eng-1''" busy_limiter]
    check_semantics [of "small_limits\<lparr>maxRequestsPerAgentPerHour := 1\<rparr>" 3600100 3600100 "js ''eng-1''" busy_limiter]
    check_semantics [of "small_limits\<lparr>maxRequestsPerHour := 2\<rparr>" 3600100 3600100 "js ''eng-1''" busy_limiter]
  by (simp add: small_limits_def busy_limiter_def window_of_def pruneWindow_def WINDOW_MS_def)

section \<open>The before\_reply hook\<close>

text \<open>
  Claim C5. On a bridged agent, a command body that contains \<open>HEARTBEAT_OK\<close> or
  \<open>Read HEARTBEAT.md\<close> is answered with the text \<open>HEARTBEAT_OK\<close> exactly, and nothing
  else happens: no broker command is sent, the rate limiter is not charged and the state is
  what it was.
\<close>

theorem heartbeat_shortcut:
  assumes "bridged config ctx_agentId"
    and "js_includes (commandBody event) (js ''HEARTBEAT_OK'') \<or>
         js_includes (commandBody event) (js ''Read HEARTBEAT.md'')"
  shows "before_reply config rl ctx_agentId event env st =
           (Inr (Some \<lparr>reply_text = JStr (js ''HEARTBEAT_OK''), isError = False\<rparr>), st, [])"
  using assms by (simp add: before_reply_def is_heartbeat_def heartbeat_reply_def Let_def)

theorem heartbeat_shortcut_witness:
  "bridged bridge_config (Some (js ''eng-1'')) \<and>
   js_includes (commandBody (said ''Please Read HEARTBEAT.md now'')) (js ''Read HEARTBEAT.md'') \<and>
   before_reply bridge_config default_limits (Some (js ''eng-1''))
     (said ''Please Read HEARTBEAT.md now'') silent fresh_state =
     (Inr (Some \<lparr>reply_text = JStr (js ''HEARTBEAT_OK''), isError = False\<rparr>), fresh_state, []) \<and>
   before_reply bridge_config default_limits (Some (js ''eng-1''))
     (said ''HEARTBEAT_OK'') silent tripped_state =
     (Inr (Some \<lparr>reply_text = JStr (js ''HEARTBEAT_OK''), isError = False\<rparr>), tripped_state, [])"
  using heartbeat_shortcut [of bridge_config "Some (js ''eng-1'')"
      "said ''Please Read HEARTBEAT.md now''" default_limits silent fresh_state]
    heartbeat_shortcut [of bridge_config "Some (js ''eng-1'')"
      "said ''HEARTBEAT_OK''" default_limits silent tripped_state]
  by (simp add: bridged_def isEngineAgent_def bridge_config_def said_def sublist_code)















lemma try_block_object:
  assumes "isRedisReady env \<or> ensureConnected env"
    and "xadd_outcome env = None"
    and "brpop_outcome env = Inr (Some (key, raw))"
    and "JSON_parse env raw = Some (JObj props)"
    and "map_of props (js ''error'') = None"
    and "map_of props (js ''text'') = None"
  shows "\<exists>evs. try_block config agentId event env b =
           (Inr \<lparr>reply_text = JStr raw, isError = False\<rparr>, recordSuccess b, evs)
         \<and> RecordSuccess \<in> set evs \<and> RecordFailure \<notin> set evs"
  using assms by (auto simp: try_block_def parse_response_def Let_def)

text \<open>
  Claim C10. When the popped value parses as JSON to an object that has neither an
  \<open>error\<close> nor a \<open>text\<close> property (the string \<open>{}\<close>, say), the hook records a breaker
  success and replies with the popped string itself as the text, not as an error, and the
  tool returns the popped string as its text content. The popped value is taken as plain
  text, \<open>{text: raw}\<close>, when \<open>JSON.parse\<close> throws, and only then: whatever it parses to is
  used as it is.
\<close>

theorem object_without_text_or_error:
  assumes "bridged config ctx_agentId"
    and "\<not> is_heartbeat (commandBody event)"
    and "\<not> present (fst (check rl (now_sync env) (now_sync env) (or_else ctx_agentId []) (rateLimiter st)))"
    and "\<not> isOpen (now_sync env) (the_breaker st)"
    and "isRedisReady env \<or> ensureConnected env"
    and "xadd_outcome env = None"
    and "brpop_outcome env = Inr (Some (key, raw))"
    and "JSON_parse env raw = Some (JObj props)"
    and "map_of props (js ''error'') = None"
    and "map_of props (js ''text'') = None"
    and "trim (or_else params_message []) \<noteq> []"
  shows "fst (before_reply config rl ctx_agentId event env st)
           = Inr (Some \<lparr>reply_text = JStr raw, isError = False\<rparr>)
       \<and> the_breaker (fst (snd (before_reply config rl ctx_agentId event env st)))
           = recordSuccess (the_breaker st)
       \<and> RecordSuccess \<in> set (snd (snd (before_reply config rl ctx_agentId event env st)))
       \<and> RecordFailure \<notin> set (snd (snd (before_reply config rl ctx_agentId event env st)))
       \<and> fst (execute redis config tool_agentId tool_channel params_message env) = Inr (JStr raw)
       \<and> parse_response env raw = JObj props
       \<and> (\<forall>other. JSON_parse env other = None \<longrightarrow>
              parse_response env other = JObj [(js ''text'', JStr other)])
       \<and> (\<forall>other v. JSON_parse env other = Some v \<longrightarrow> parse_response env other = v)"
proof -
  let ?agent = "or_else ctx_agentId []"
  obtain msg lim where ck: "check rl (now_sync env) (now_sync env) ?agent (rateLimiter st) = (msg, lim)"
    by (cases "check rl (now_sync env) (now_sync env) ?agent (rateLimiter st)") auto
  obtain evs where tb: "try_block config ?agent event env (the_breaker st) =
           (Inr \<lparr>reply_text = JStr raw, isError = False\<rparr>, recordSuccess (the_breaker st), evs)"
      "RecordSuccess \<in> set evs" "RecordFailure \<notin> set evs"
    using try_block_object [OF assms(5-10)] by blast
  have hook: "before_reply config rl ctx_agentId event env st =
     (Inr (Some \<lparr>reply_text = JStr raw, isError = False\<rparr>),
      \<lparr>the_breaker = recordSuccess (the_breaker st),
       rateLimiter = record_request (now_sync env) ?agent lim\<rparr>,
      LimiterRecord ?agent #
        (if isHalfOpen (now_sync env) (the_breaker st) then [Log Info CircuitHalfOpen] else []) @ evs)"
    using assms(1-4) ck tb(1) by (simp add: before_reply_def guarded_forward_def Let_def)
  have tool: "fst (execute redis config tool_agentId tool_channel params_message env) = Inr (JStr raw)"
    using assms(6-11) by (simp add: execute_def parse_response_def Let_def)
  have parse: "parse_response env raw = JObj props"
    using assms(8) by (simp add: parse_response_def)
  have fallback: "\<forall>other. JSON_parse env other = None \<longrightarrow>
              parse_response env other = JObj [(js ''text'', JStr other)]"
      "\<forall>other v. JSON_parse env other = Some v \<longrightarrow> parse_response env other = v"
    by (auto simp: parse_response_def)
  show ?thesis
    using hook tool parse fallback tb(2,3) by simp
qed

theorem object_without_text_or_error_witness:
  "fst (before_reply bridge_config default_limits (Some (js ''eng-1'')) (said ''Bonjour'')
        (answers ''{}'') fresh_state)
       = Inr (Some \<lparr>reply_text = JStr (js ''{}''), isError = False\<rparr>)
   \<and> the_breaker (fst (snd (before_reply bridge_config default_limits (Some (js ''eng-1''))
        (said ''Bonjour'') (answers ''{}'') fresh_state))) = recordSuccess (the_breaker fresh_state)
   \<and> fst (execute Redis bridge_config (Some (js ''eng-1'')) None (Some (js ''Bonjour'')) (answers ''{}''))
       = Inr (JStr (js ''{}''))
   \<and> parse_response (answers ''{}'') (js ''{}'') = JObj []
   \<and> JSON_parse (answers ''{}'') (js ''Salut'') = None
   \<and> parse_response (answers ''{}'') (js ''Salut'') = JObj [(js ''text'', JStr (js ''Salut''))]"
proof -
  let ?env = "answers ''{}''"
  have h1: "bridged bridge_config (Some (js ''eng-1''))"
    by (simp add: hook_eval)
  have h2: "\<not> is_heartbeat (commandBody (said ''Bonjour''))"
    by (simp add: hook_eval)
  have h4: "\<not> present (fst (check default_limits (now_sync ?env) (now_sync ?env)
      (or_else (Some (js ''eng-1'')) []) (rateLimiter fresh_state)))"
    by (simp add: hook_eval)
  have h5: "\<not> isOpen (now_sync ?env) (the_breaker fresh_state)"
    by (simp add: hook_eval)
  have h6: "isRedisReady ?env \<or> ensureConnected ?env"
    by (simp add: hook_eval)
  have h7: "xadd_outcome ?env = None"
    by (simp add: hook_eval)
  have h8: "brpop_outcome ?env = Inr (Some (js ''bridge:response:id-1'', js ''{}''))"
    by (simp add: hook_eval)
  have h9: "JSON_parse ?env (js ''{}'') = Some (JObj [])"
    by (simp add: hook_eval)
  have h10: "map_of [] (js ''error'') = (None :: json option)" "map_of [] (js ''text'') = (None :: json option)"
    by simp_all
  have h11: "trim (or_else (Some (js ''Bonjour'')) []) \<noteq> []"
    by (simp add: trim_literal)
  have none: "JSON_parse ?env (js ''Salut'') = None"
    by (simp add: hook_eval)
  from object_without_text_or_error [OF h1 h2 h4 h5 h6 h7 h8 h9 h10 h11,
      of Redis "Some (js ''eng-1'')" None] none
  show ?thesis
    by simp
qed

section \<open>Broker commands of the hook and of the tool\<close>

lemma broker_commands_append [simp]:
  "broker_commands (xs @ ys) = broker_commands xs @ broker_commands ys"
  by (induction xs rule: broker_commands.induct) simp_all

lemma try_block_commands:
  "broker_commands (snd (snd (try_block config agentId event env b))) \<in>
     {[],
      [(Redis, XADD STREAM_INBOUND (js ''*'') (xaddArgs (randomUUID env) agentId event (now_xadd env)))],
      [(Redis, XADD STREAM_INBOUND (js ''*'') (xaddArgs (randomUUID env) agentId event (now_xadd env))),
       (RedisBlocking, BRPOP (RESPONSE_KEY_PREFIX @ randomUUID env) (timeoutSeconds config))]}"
  by (auto simp: try_block_def Let_def split: option.splits sum.splits prod.splits)

lemma guarded_forward_commands:
  "broker_commands (snd (snd (guarded_forward config agentId event env b))) =
     (if isOpen (now_sync env) b then []
      else broker_commands (snd (snd (try_block config agentId event env b))))"
  by (cases "try_block config agentId event env b")
    (auto simp: guarded_forward_def Let_def split: sum.splits)

lemma before_reply_commands:
  "broker_commands (snd (snd (before_reply config rl ctx_agentId event env st))) = [] \<or>
   broker_commands (snd (snd (before_reply config rl ctx_agentId event env st))) =
     broker_commands (snd (snd (try_block config (or_else ctx_agentId []) event env (the_breaker st))))"
proof -
  let ?agent = "or_else ctx_agentId []"
  obtain msg lim where ck: "check rl (now_sync env) (now_sync env) ?agent (rateLimiter st) = (msg, lim)"
    by (cases "check rl (now_sync env) (now_sync env) ?agent (rateLimiter st)") auto
  obtain r b1 evs where gf: "guarded_forward config ?agent event env (the_breaker st) = (r, b1, evs)"
    by (cases "guarded_forward config ?agent event env (the_breaker st)") auto
  from gf have "broker_commands evs = [] \<or> broker_commands evs =
      broker_commands (snd (snd (try_block config ?agent event env (the_breaker st))))"
    using guarded_forward_commands [of config ?agent event env "the_breaker st"] by (simp split: if_splits)
  with ck gf show ?thesis
    by (auto simp: before_reply_def Let_def)
qed

lemma before_reply_command_cases:
  assumes "(c, cmd) \<in> set (broker_commands (snd (snd (before_reply config rl ctx_agentId event env st))))"
  shows "(c = Redis \<and> cmd = XADD STREAM_INBOUND (js ''*'')
            (xaddArgs (randomUUID env) (or_else ctx_agentId []) event (now_xadd env)))
       \<or> (c = RedisBlocking \<and> cmd = BRPOP (RESPONSE_KEY_PREFIX @ randomUUID env) (timeoutSeconds config))"
  using assms before_reply_commands [of config rl ctx_agentId event env st]
    try_block_commands [of config "or_else ctx_agentId []" event env "the_breaker st"]
  by auto

lemma in_broker_commands: "Broker c cmd \<in> set evs \<longleftrightarrow> (c, cmd) \<in> set (broker_commands evs)"
  by (induction evs rule: broker_commands.induct) auto

lemma xaddArgs_fields:
  "set spec_mandatory_fields \<subseteq> set (field_names (xaddArgs correlationId agentId event now))"
  by (simp add: xaddArgs_def field_names_def spec_mandatory_fields_def)

lemma xaddArgs_even: "even (length (xaddArgs correlationId agentId event now))"
  by (simp add: xaddArgs_def optional_field_def)

lemma tool_xaddArgs_fields:
  "field_names (tool_xaddArgs correlationId message agent channel now) = BridgeInboundEntry_fields"
  "map_of (field_pairs (tool_xaddArgs correlationId message agent channel now)) (js ''from'') = Some (js ''proxy'')"
  "even (length (tool_xaddArgs correlationId message agent channel now))"
  by (simp_all add: tool_xaddArgs_def field_names_def BridgeInboundEntry_fields_def)

lemma execute_commands:
  "broker_commands (snd (execute redis config ctx_agentId ctx_messageChannel params_message env)) \<in>
     {[],
      [(redis, XADD STREAM_INBOUND (js ''*'')
          (tool_xaddArgs (randomUUID env) (or_else params_message [])
             (or_else ctx_agentId (js ''unknown'')) (or_else ctx_messageChannel (js ''unknown''))
             (now_xadd env)))],
      [(redis, XADD STREAM_INBOUND (js ''*'')
          (tool_xaddArgs (randomUUID env) (or_else params_message [])
             (or_else ctx_agentId (js ''unknown'')) (or_else ctx_messageChannel (js ''unknown''))
             (now_xadd env))),
       (redis, BRPOP (RESPONSE_KEY_PREFIX @ randomUUID env) (timeoutSeconds config))]}"
  by (auto simp: execute_def Let_def split: option.splits sum.splits prod.splits)

lemma hook_appends_example:
  "Broker Redis (XADD STREAM_INBOUND (js ''*'') (xaddArgs (js ''id-1'') (js ''eng-1'') (said ''Bonjour'') 2001))
     \<in> set (snd (snd (before_reply bridge_config default_limits (Some (js ''eng-1'')) (said ''Bonjour'')
          (answers ''Salut'') fresh_state)))"
  by (simp add: hook_eval before_reply_def guarded_forward_def try_block_def parse_response_def)

lemma tool_appends_example:
  "Broker Redis (XADD STREAM_INBOUND (js ''*'')
       (tool_xaddArgs (js ''id-1'') (js ''Bonjour'') (js ''eng-1'') (js ''unknown'') 2001))
     \<in> set (snd (execute Redis bridge_config (Some (js ''eng-1'')) None (Some (js ''Bonjour''))
          (answers ''Salut'')))"
  by (simp add: hook_eval execute_def trim_literal parse_response_def)

text \<open>
  Claim C8, as amended. Every append of the hook goes to \<open>bridge:inbound\<close> with complete
  field/value pairs of strings that include \<open>correlationId\<close>, \<open>message\<close>, \<open>from\<close>,
  \<open>agent\<close>, \<open>channel\<close>, \<open>accountId\<close>, \<open>sessionKey\<close>, \<open>timestamp\<close> and
  \<open>protocolVersion\<close>. Every append of the tool goes to \<open>bridge:inbound\<close> with exactly the
  fields \<open>correlationId\<close>, \<open>message\<close>, \<open>from\<close> (the string \<open>proxy\<close>), \<open>agent\<close>,
  \<open>channel\<close> and \<open>timestamp\<close>, the fields the type \<open>BridgeInboundEntry\<close> requires.
\<close>

theorem inbound_append_fields:
  "(\<forall>c stream entry_id args.
       Broker c (XADD stream entry_id args)
         \<in> set (snd (snd (before_reply config rl ctx_agentId event env st))) \<longrightarrow>
       stream = STREAM_INBOUND \<and> set spec_mandatory_fields \<subseteq> set (field_names args)
       \<and> even (length args))
   \<and> (\<forall>c stream entry_id args.
       Broker c (XADD stream entry_id args)
         \<in> set (snd (execute redis config tool_agentId tool_channel params_message env)) \<longrightarrow>
       stream = STREAM_INBOUND \<and> field_names args = BridgeInboundEntry_fields
       \<and> map_of (field_pairs args) (js ''from'') = Some (js ''proxy'')
       \<and> even (length args))"
proof (intro conjI allI impI)
  fix c stream entry_id args
  assume "Broker c (XADD stream entry_id args)
         \<in> set (snd (snd (before_reply config rl ctx_agentId event env st)))"
  then have "(c, XADD stream entry_id args)
         \<in> set (broker_commands (snd (snd (before_reply config rl ctx_agentId event env st))))"
    by (simp add: in_broker_commands)
  from before_reply_command_cases [OF this]
  have eq: "stream = STREAM_INBOUND"
      "args = xaddArgs (randomUUID env) (or_else ctx_agentId []) event (now_xadd env)"
    by auto
  show "stream = STREAM_INBOUND" by (rule eq(1))
  show "set spec_mandatory_fields \<subseteq> set (field_names args)"
    unfolding eq(2) by (rule xaddArgs_fields)
  show "even (length args)"
    unfolding eq(2) by (rule xaddArgs_even)
next
  fix c stream entry_id args
  assume "Broker c (XADD stream entry_id args)
         \<in> set (snd (execute redis config tool_agentId tool_channel params_message env))"
  then have "(c, XADD stream entry_id args)
         \<in> set (broker_commands (snd (execute redis config tool_agentId tool_channel params_message env)))"
    by (simp add: in_broker_commands)
  with execute_commands [of redis config tool_agentId tool_channel params_message env]
  have eq: "stream = STREAM_INBOUND"
      "args = tool_xaddArgs (randomUUID env) (or_else params_message [])
             (or_else tool_agentId (js ''unknown'')) (or_else tool_channel (js ''unknown''))
             (now_xadd env)"
    by auto
  show "stream = STREAM_INBOUND" by (rule eq(1))
  show "field_names args = BridgeInboundEntry_fields"
    unfolding eq(2) by (rule tool_xaddArgs_fields)
  show "map_of (field_pairs args) (js ''from'') = Some (js ''proxy'')"
    unfolding eq(2) by (rule tool_xaddArgs_fields)
  show "even (length args)"
    unfolding eq(2) by (rule tool_xaddArgs_fields)
qed

theorem inbound_append_fields_witness:
  "Broker Redis (XADD STREAM_INBOUND (js ''*'') (xaddArgs (js ''id-1'') (js ''eng-1'') (said ''Bonjour'') 2001))
     \<in> set (snd (snd (before_reply bridge_config default_limits (Some (js ''eng-1'')) (said ''Bonjour'')
          (answers ''Salut'') fresh_state)))
   \<and> set spec_mandatory_fields
       \<subseteq> set (field_names (xaddArgs (js ''id-1'') (js ''eng-1'') (said ''Bonjour'') 2001))
   \<and> Broker Redis (XADD STREAM_INBOUND (js ''*'')
       (tool_xaddArgs (js ''id-1'') (js ''Bonjour'') (js ''eng-1'') (js ''unknown'') 2001))
     \<in> set (snd (execute Redis bridge_config (Some (js ''eng-1'')) None (Some (js ''Bonjour''))
          (answers ''Salut'')))
   \<and> field_names (tool_xaddArgs (js ''id-1'') (js ''Bonjour'') (js ''eng-1'') (js ''unknown'') 2001)
       = BridgeInboundEntry_fields"
  using inbound_append_fields [THEN conjunct1, rule_format, OF hook_appends_example]
    inbound_append_fields [THEN conjunct2, rule_format, OF tool_appends_example]
    hook_appends_example tool_appends_example
  by simp

text \<open>
  Claim C8 as stated fails on the tool: its append carries neither \<open>accountId\<close> nor
  \<open>sessionKey\<close> nor \<open>protocolVersion\<close>.
\<close>

theorem tool_append_counterexample:
  "Broker Redis (XADD STREAM_INBOUND (js ''*'')
       (tool_xaddArgs (js ''id-1'') (js ''Bonjour'') (js ''eng-1'') (js ''unknown'') 2001))
     \<in> set (snd (execute Redis bridge_config (Some (js ''eng-1'')) None (Some (js ''Bonjour''))
          (answers ''Salut'')))
   \<and> js ''accountId'' \<notin> set (field_names
         (tool_xaddArgs (js ''id-1'') (js ''Bonjour'') (js ''eng-1'') (js ''unknown'') 2001))
   \<and> js ''sessionKey'' \<notin> set (field_names
         (tool_xaddArgs (js ''id-1'') (js ''Bonjour'') (js ''eng-1'') (js ''unknown'') 2001))
   \<and> js ''protocolVersion'' \<notin> set (field_names
         (tool_xaddArgs (js ''id-1'') (js ''Bonjour'') (js ''eng-1'') (js ''unknown'') 2001))
   \<and> \<not> set spec_mandatory_fields \<subseteq> set (field_names
         (tool_xaddArgs (js ''id-1'') (js ''Bonjour'') (js ''eng-1'') (js ''unknown'') 2001))"
  using tool_appends_example
  by (simp add: tool_xaddArgs_def field_names_def spec_mandatory_fields_def)

section \<open>The two connections\<close>

lemma send_chunks_commands:
  "broker_commands (snd (send_chunks outcome cliBinary entry i chunks)) = []"
proof (induction chunks arbitrary: i)
  case Nil
  then show ?case by simp
next
  case (Cons chunk rest)
  obtain r es where rest: "send_chunks outcome cliBinary entry (Suc i) rest = (r, es)"
    by (cases "send_chunks outcome cliBinary entry (Suc i) rest") auto
  with Cons.IH [of "Suc i"] have "broker_commands es = []"
    by simp
  with rest show ?case
    by (simp split: option.splits)
qed

lemma deliver_commands:
  assumes "deliver redis config entryId entry env cliBinary = Some (bin, evs)"
    and "(c, cmd) \<in> set (broker_commands evs)"
  shows "c = redis"
proof -
  have "broker_commands es = []"
    if "send_chunks (exec_outcome env) b entry 0 chunks = (r, es)" for b chunks r es
    using send_chunks_commands [of "exec_outcome env" b entry 0 chunks] that by simp
  with assms show ?thesis
    by (auto simp: deliver_def Let_def split: option.splits prod.splits if_splits)
qed

lemma processEntry_commands:
  assumes "processEntry redis config entryId entry_fields env cliBinary = Some (res, bin, evs)"
    and "(c, cmd) \<in> set (broker_commands evs)"
  shows "c = redis"
  using assms
  by (auto simp: processEntry_def Let_def dest: deliver_commands
      split: option.splits prod.splits if_splits sum.splits list.splits)

lemma process_all_commands:
  assumes "process_all redis config entries cliBinary = Some (bin, evs)"
    and "(c, cmd) \<in> set (broker_commands evs)"
  shows "c = redis"
  using assms
proof (induction entries arbitrary: cliBinary bin evs)
  case Nil
  then show ?case by simp
next
  case (Cons e entries)
  obtain entryId entry_fields env where e: "e = (entryId, entry_fields, env)"
    by (cases e) auto
  from Cons.prems show ?case
    unfolding e
    by (auto split: option.splits prod.splits sum.splits
        dest: processEntry_commands Cons.IH)
qed

lemma poll_turn_commands:
  assumes "poll_turn redis config xreadgroup_outcome cliBinary = Some (bin, evs)"
    and "(c, cmd) \<in> set (broker_commands evs)"
  shows "c = redis"
  using assms
  by (auto simp: poll_turn_def Let_def split: sum.splits option.splits prod.splits
      dest: process_all_commands)

lemma ensureConsumerGroup_commands:
  assumes "(c, cmd) \<in> set (broker_commands (snd (ensureConsumerGroup redis config xgroup_outcome)))"
  shows "c = redis"
  using assms
  by (auto simp: ensureConsumerGroup_def Let_def split: option.splits if_splits)

lemma tool_pops_example:
  "(Redis, BRPOP (js ''bridge:response:id-1'') 120)
     \<in> set (broker_commands (snd (execute Redis bridge_config (Some (js ''eng-1'')) None
          (Some (js ''Bonjour'')) (answers ''Salut''))))"
  by (simp add: hook_eval execute_def trim_literal parse_response_def RESPONSE_KEY_PREFIX_def)

lemma hook_pops_example:
  "(RedisBlocking, BRPOP (js ''bridge:response:id-1'') 120)
     \<in> set (broker_commands (snd (snd (before_reply bridge_config default_limits (Some (js ''eng-1''))
          (said ''Bonjour'') (answers ''Salut'') fresh_state))))"
  by (simp add: hook_eval before_reply_def guarded_forward_def try_block_def parse_response_def
      RESPONSE_KEY_PREFIX_def)

lemma registered_tool_example:
  "registered_tool bridge_config (Some (js ''eng-1'')) None
     = Some (execute Redis bridge_config (Some (js ''eng-1'')) None)"
  by (simp add: registered_tool_def hook_eval)

lemma listener_reads_example:
  "poll_turn listener_client bridge_config (Inr None) None
     = Some (None, [Broker Redis (XREADGROUP (readgroup_args bridge_config))])"
  by (simp add: poll_turn_def listener_client_def)

text \<open>
  Claim C7, as amended. In the hook a command is sent on the blocking connection iff it is
  a blocking read: the rendezvous \<open>BRPOP\<close> goes to \<open>redisBlocking\<close> and the append to
  \<open>redis\<close>. The tool and the outbound listener are created with the connection \<open>redis\<close>
  alone, and every command of theirs goes there: the appends, the acknowledgements, the
  pending-list inspection and the group creation, and also the tool's \<open>BRPOP\<close> and the
  listener's \<open>XREADGROUP\<close>.
\<close>

theorem blocking_client_use:
  "(\<forall>c cmd. (c, cmd) \<in> set (broker_commands (snd (snd (before_reply config rl ctx_agentId event env st))))
       \<longrightarrow> (c = RedisBlocking \<longleftrightarrow> blocking_read cmd))
   \<and> (\<forall>tool c cmd. registered_tool config tool_agentId tool_channel = Some tool
       \<longrightarrow> (c, cmd) \<in> set (broker_commands (snd (tool params_message env)))
       \<longrightarrow> c = Redis)
   \<and> (\<forall>c cmd. (c, cmd) \<in> set (broker_commands (snd (ensureConsumerGroup listener_client config xgroup_outcome)))
       \<longrightarrow> c = Redis)
   \<and> (\<forall>bin evs c cmd. poll_turn listener_client config xreadgroup_outcome cliBinary = Some (bin, evs)
       \<longrightarrow> (c, cmd) \<in> set (broker_commands evs)
       \<longrightarrow> c = Redis)"
proof (intro conjI allI impI)
  fix c cmd
  assume "(c, cmd) \<in> set (broker_commands (snd (snd (before_reply config rl ctx_agentId event env st))))"
  from before_reply_command_cases [OF this]
  show "c = RedisBlocking \<longleftrightarrow> blocking_read cmd"
    by auto
next
  fix tool c cmd
  assume "registered_tool config tool_agentId tool_channel = Some tool"
    and "(c, cmd) \<in> set (broker_commands (snd (tool params_message env)))"
  then have "(c, cmd) \<in> set (broker_commands
      (snd (execute Redis config tool_agentId tool_channel params_message env)))"
    by (auto simp: registered_tool_def split: if_splits)
  with execute_commands [of Redis config tool_agentId tool_channel params_message env]
  show "c = Redis"
    by auto
next
  fix c cmd
  assume "(c, cmd) \<in> set (broker_commands (snd (ensureConsumerGroup listener_client config xgroup_outcome)))"
  then show "c = Redis"
    using ensureConsumerGroup_commands by (simp add: listener_client_def)
next
  fix bin evs c cmd
  assume "poll_turn listener_client config xreadgroup_outcome cliBinary = Some (bin, evs)"
    and "(c, cmd) \<in> set (broker_commands evs)"
  then show "c = Redis"
    using poll_turn_commands by (simp add: listener_client_def)
qed

theorem blocking_client_use_witness:
  "(RedisBlocking, BRPOP (js ''bridge:response:id-1'') 120)
     \<in> set (broker_commands (snd (snd (before_reply bridge_config default_limits (Some (js ''eng-1''))
          (said ''Bonjour'') (answers ''Salut'') fresh_state))))
   \<and> blocking_read (BRPOP (js ''bridge:response:id-1'') 120)
   \<and> registered_tool bridge_config (Some (js ''eng-1'')) None
       = Some (execute Redis bridge_config (Some (js ''eng-1'')) None)
   \<and> (Redis, BRPOP (js ''bridge:response:id-1'') 120)
     \<in> set (broker_commands (snd (execute Redis bridge_config (Some (js ''eng-1'')) None
          (Some (js ''Bonjour'')) (answers ''Salut''))))
   \<and> poll_turn listener_client bridge_config (Inr None) None
       = Some (None, [Broker Redis (XREADGROUP (readgroup_args bridge_config))])"
  using blocking_client_use [THEN conjunct1, rule_format, OF hook_pops_example]
    blocking_client_use [THEN conjunct2, THEN conjunct1, rule_format,
      OF registered_tool_example tool_pops_example]
    blocking_client_use [THEN conjunct2, THEN conjunct2, THEN conjunct2, rule_format,
      OF listener_reads_example, of Redis "XREADGROUP (readgroup_args bridge_config)"]
    hook_pops_example registered_tool_example tool_pops_example listener_reads_example
  by simp

text \<open>
  Claim C7 as stated fails on the tool and on the listener: the tool's blocking \<open>BRPOP\<close>
  and the listener's blocking \<open>XREADGROUP\<close> are sent on \<open>redis\<close>, which is not the
  blocking connection.
\<close>

theorem blocking_reads_counterexample:
  "registered_tool bridge_config (Some (js ''eng-1'')) None
       = Some (execute Redis bridge_config (Some (js ''eng-1'')) None)
   \<and> (Redis, BRPOP (js ''bridge:response:id-1'') 120)
     \<in> set (broker_commands (snd (execute Redis bridge_config (Some (js ''eng-1'')) None
          (Some (js ''Bonjour'')) (answers ''Salut''))))
   \<and> blocking_read (BRPOP (js ''bridge:response:id-1'') 120)
   \<and> poll_turn listener_client bridge_config (Inr None) None
       = Some (None, [Broker Redis (XREADGROUP (readgroup_args bridge_config))])
   \<and> blocking_read (XREADGROUP (readgroup_args bridge_config))
   \<and> Redis \<noteq> RedisBlocking"
  using registered_tool_example tool_pops_example listener_reads_example
  by (simp add: readgroup_args_def)

section \<open>The open breaker\<close>

lemma failures_in_a_row_snoc:
  "failures_in_a_row (stamps @ [now]) b = recordFailure now (failures_in_a_row stamps b)"
  by (simp add: failures_in_a_row_def)

lemma failures_in_a_row_fields:
  "failures (failures_in_a_row stamps b) = failures b + int (length stamps)
   \<and> threshold (failures_in_a_row stamps b) = threshold b
   \<and> cooldownMs (failures_in_a_row stamps b) = cooldownMs b"
proof (induction stamps rule: rev_induct)
  case Nil
  then show ?case by (simp add: failures_in_a_row_def)
next
  case (snoc now stamps)
  then show ?case
    by (simp add: failures_in_a_row_snoc recordFailure_def Let_def)
qed

lemma failures_in_a_row_openedAt:
  assumes "stamps \<noteq> []" and "threshold b \<le> failures b + int (length stamps)"
  shows "openedAt (failures_in_a_row stamps b) = last stamps"
proof -
  obtain init now where stamps: "stamps = init @ [now]"
    using assms(1) by (metis rev_exhaust)
  have "failures (failures_in_a_row init b) + 1 \<ge> threshold (failures_in_a_row init b)"
    using assms(2) failures_in_a_row_fields [of init b] by (simp add: stamps)
  then show ?thesis
    by (simp add: stamps failures_in_a_row_snoc recordFailure_def Let_def)
qed

lemma tripped_is_open:
  assumes "0 < threshold b0" and "threshold b0 \<le> int (length stamps)"
    and "now - last stamps < cooldownMs b0"
  shows "isOpen now (failures_in_a_row stamps (recordSuccess b0))"
proof -
  let ?b = "failures_in_a_row stamps (recordSuccess b0)"
  have ne: "stamps \<noteq> []"
    using assms(1,2) by auto
  have f: "failures ?b = int (length stamps)" "threshold ?b = threshold b0" "cooldownMs ?b = cooldownMs b0"
    using failures_in_a_row_fields [of stamps "recordSuccess b0"] by (simp_all add: recordSuccess_def)
  have o: "openedAt ?b = last stamps"
    using failures_in_a_row_openedAt [OF ne, of "recordSuccess b0"] assms(2)
    by (simp add: recordSuccess_def)
  show ?thesis
    using assms f o by (simp add: isOpen_def getState_def)
qed

lemma before_reply_open:
  assumes "isOpen (now_sync env) (the_breaker st)"
  shows "broker_commands (snd (snd (before_reply config rl ctx_agentId event env st))) = []
    \<and> the_breaker (fst (snd (before_reply config rl ctx_agentId event env st))) = the_breaker st
    \<and> (bridged config ctx_agentId \<longrightarrow>
         fst (before_reply config rl ctx_agentId event env st) =
           Inr (Some
            (if is_heartbeat (commandBody event) then heartbeat_reply
             else if present (fst (check rl (now_sync env) (now_sync env) (or_else ctx_agentId []) (rateLimiter st)))
               then \<lparr>reply_text = JStr (or_else (fst (check rl (now_sync env) (now_sync env)
                        (or_else ctx_agentId []) (rateLimiter st))) []), isError = True\<rparr>
             else unavailable_reply)))"
proof -
  let ?agent = "or_else ctx_agentId []"
  obtain msg lim where ck: "check rl (now_sync env) (now_sync env) ?agent (rateLimiter st) = (msg, lim)"
    by (cases "check rl (now_sync env) (now_sync env) ?agent (rateLimiter st)") auto
  have gf: "guarded_forward config ?agent event env (the_breaker st) =
      (unavailable_reply, the_breaker st, [Log Warn (CircuitOpen (consecutiveFailures (the_breaker st)))])"
    using assms by (simp add: guarded_forward_def)
  show ?thesis
    using ck gf by (simp add: before_reply_def Let_def)
qed

lemma reply_isError:
  "isError unavailable_reply" "\<not> isError heartbeat_reply"
  by (simp_all add: unavailable_reply_def heartbeat_reply_def)

lemma run_hooks_open:
  assumes "\<forall>(ctx_agentId, event, env) \<in> set invocations. isOpen (now_sync env) (the_breaker st)"
    and "run_hooks config rl invocations st = (results, st')"
  shows "the_breaker st' = the_breaker st \<and>
    list_all2 (\<lambda>(ctx_agentId, event, env) (res, evs).
        broker_commands evs = [] \<and>
        (bridged config ctx_agentId \<longrightarrow>
           (if is_heartbeat (commandBody event) then res = Inr (Some heartbeat_reply)
            else \<exists>r. res = Inr (Some r) \<and> isError r)))
      invocations results"
  using assms
proof (induction invocations arbitrary: st results st')
  case Nil
  then show ?case by simp
next
  case (Cons inv invocations)
  obtain ctx_agentId event env where inv: "inv = (ctx_agentId, event, env)"
    by (cases inv) auto
  obtain res st1 evs where br: "before_reply config rl ctx_agentId event env st = (res, st1, evs)"
    by (cases "before_reply config rl ctx_agentId event env st") auto
  obtain rest st2 where rh: "run_hooks config rl invocations st1 = (rest, st2)"
    by (cases "run_hooks config rl invocations st1") auto
  have opn: "isOpen (now_sync env) (the_breaker st)"
    using Cons.prems(1) inv by simp
  from before_reply_open [OF opn, of config rl ctx_agentId event] br
  have one: "broker_commands evs = []" "the_breaker st1 = the_breaker st"
    "bridged config ctx_agentId \<longrightarrow>
       (if is_heartbeat (commandBody event) then res = Inr (Some heartbeat_reply)
        else \<exists>r. res = Inr (Some r) \<and> isError r)"
    by (auto simp: reply_isError)
  have "\<forall>(ctx_agentId, event, env) \<in> set invocations. isOpen (now_sync env) (the_breaker st1)"
    using Cons.prems(1) one(2) by simp
  from Cons.IH [OF this rh]
  have more: "the_breaker st2 = the_breaker st1"
    "list_all2 (\<lambda>(ctx_agentId, event, env) (res, evs).
        broker_commands evs = [] \<and>
        (bridged config ctx_agentId \<longrightarrow>
           (if is_heartbeat (commandBody event) then res = Inr (Some heartbeat_reply)
            else \<exists>r. res = Inr (Some r) \<and> isError r)))
      invocations rest"
    by simp_all
  from Cons.prems(2) have "results = (res, evs) # rest" "st' = st2"
    by (simp_all add: inv br rh)
  with one more show ?case
    by (simp add: inv)
qed

lemma tripped_by_failures:
  "the_breaker tripped_state
     = failures_in_a_row [200, 400, 600, 800, 1000] (recordSuccess (createCircuitBreaker None))"
  by (simp add: failures_in_a_row_def hook_eval)

lemma two_calls_example:
  "run_hooks bridge_config default_limits
      [(Some (js ''eng-1''), said ''Bonjour'', silent), (Some (js ''eng-1''), said ''HEARTBEAT_OK'', silent)]
      tripped_state
    = ([(Inr (Some unavailable_reply), [LimiterRecord (js ''eng-1''), Log Warn (CircuitOpen 5)]),
        (Inr (Some heartbeat_reply), [])],
       tripped_state\<lparr>rateLimiter := record_request 2000 (js ''eng-1'')
          (snd (check default_limits 2000 2000 (js ''eng-1'') createRateLimiter))\<rparr>)"
  by (simp add: hook_eval before_reply_def guarded_forward_def consecutiveFailures_def)

text \<open>
  Claim C6, as amended. The hook consults the breaker after the heartbeat filter and the
  rate limiter. Whenever the breaker is open, an invocation sends no broker command and
  leaves the breaker as it is; on a bridged agent a heartbeat is answered \<open>HEARTBEAT_OK\<close>,
  a request the limiter refuses gets the limiter's message with \<open>isError\<close>, and every
  other request gets the unavailability reply with \<open>isError\<close>. After \<open>threshold\<close> or more
  failures in a row with no success in between (the threshold being positive), this holds
  for every invocation made before the cooldown, counted from the last failure, has
  elapsed: no broker command, the breaker unchanged, and an \<open>isError\<close> reply to every
  request on a bridged agent that is not a heartbeat.
\<close>

theorem open_breaker_short_circuit:
  "(isOpen (now_sync env) (the_breaker st) \<longrightarrow>
      broker_commands (snd (snd (before_reply config rl ctx_agentId event env st))) = []
    \<and> the_breaker (fst (snd (before_reply config rl ctx_agentId event env st))) = the_breaker st
    \<and> (bridged config ctx_agentId \<longrightarrow>
         fst (before_reply config rl ctx_agentId event env st) =
           Inr (Some
            (if is_heartbeat (commandBody event) then heartbeat_reply
             else if present (fst (check rl (now_sync env) (now_sync env) (or_else ctx_agentId []) (rateLimiter st)))
               then \<lparr>reply_text = JStr (or_else (fst (check rl (now_sync env) (now_sync env)
                        (or_else ctx_agentId []) (rateLimiter st))) []), isError = True\<rparr>
             else unavailable_reply))))
   \<and> (0 < threshold b0 \<and> threshold b0 \<le> int (length stamps)
      \<and> the_breaker st = failures_in_a_row stamps (recordSuccess b0)
      \<and> (\<forall>(ctx_agentId, event, env) \<in> set invocations. now_sync env - last stamps < cooldownMs b0)
      \<and> run_hooks config rl invocations st = (results, st') \<longrightarrow>
        the_breaker st' = the_breaker st
      \<and> list_all2 (\<lambda>(ctx_agentId, event, env) (res, evs).
          broker_commands evs = [] \<and>
          (bridged config ctx_agentId \<longrightarrow>
             (if is_heartbeat (commandBody event) then res = Inr (Some heartbeat_reply)
              else \<exists>r. res = Inr (Some r) \<and> isError r)))
        invocations results)"
proof (intro conjI impI)
  assume "isOpen (now_sync env) (the_breaker st)"
  from before_reply_open [OF this, of config rl ctx_agentId event]
  show "broker_commands (snd (snd (before_reply config rl ctx_agentId event env st))) = []"
    and "the_breaker (fst (snd (before_reply config rl ctx_agentId event env st))) = the_breaker st"
    by simp_all
next
  assume "isOpen (now_sync env) (the_breaker st)" and "bridged config ctx_agentId"
  with before_reply_open [of env st config rl ctx_agentId event]
  show "fst (before_reply config rl ctx_agentId event env st) =
           Inr (Some
            (if is_heartbeat (commandBody event) then heartbeat_reply
             else if present (fst (check rl (now_sync env) (now_sync env) (or_else ctx_agentId []) (rateLimiter st)))
               then \<lparr>reply_text = JStr (or_else (fst (check rl (now_sync env) (now_sync env)
                        (or_else ctx_agentId []) (rateLimiter st))) []), isError = True\<rparr>
             else unavailable_reply))"
    by simp
next
  assume h: "0 < threshold b0 \<and> threshold b0 \<le> int (length stamps)
      \<and> the_breaker st = failures_in_a_row stamps (recordSuccess b0)
      \<and> (\<forall>(ctx_agentId, event, env) \<in> set invocations. now_sync env - last stamps < cooldownMs b0)
      \<and> run_hooks config rl invocations st = (results, st')"
  then have "\<forall>(ctx_agentId, event, env) \<in> set invocations. isOpen (now_sync env) (the_breaker st)"
    using tripped_is_open [of b0 stamps] by auto
  from run_hooks_open [OF this, of config rl results st'] h
  show "the_breaker st' = the_breaker st"
    and "list_all2 (\<lambda>(ctx_agentId, event, env) (res, evs).
          broker_commands evs = [] \<and>
          (bridged config ctx_agentId \<longrightarrow>
             (if is_heartbeat (commandBody event) then res = Inr (Some heartbeat_reply)
              else \<exists>r. res = Inr (Some r) \<and> isError r)))
        invocations results"
    by simp_all
qed

theorem open_breaker_short_circuit_witness:
  "isOpen (now_sync silent) (the_breaker tripped_state)
   \<and> fst (before_reply bridge_config default_limits (Some (js ''eng-1'')) (said ''Bonjour'') silent
        tripped_state) = Inr (Some unavailable_reply)
   \<and> the_breaker tripped_state
       = failures_in_a_row [200, 400, 600, 800, 1000] (recordSuccess (createCircuitBreaker None))
   \<and> fst (run_hooks bridge_config default_limits
        [(Some (js ''eng-1''), said ''Bonjour'', silent), (Some (js ''eng-1''), said ''HEARTBEAT_OK'', silent)]
        tripped_state)
       = [(Inr (Some unavailable_reply), [LimiterRecord (js ''eng-1''), Log Warn (CircuitOpen 5)]),
          (Inr (Some heartbeat_reply), [])]
   \<and> the_breaker (snd (run_hooks bridge_config default_limits
        [(Some (js ''eng-1''), said ''Bonjour'', silent), (Some (js ''eng-1''), said ''HEARTBEAT_OK'', silent)]
        tripped_state)) = the_breaker tripped_state"
proof -
  have opn: "isOpen (now_sync silent) (the_breaker tripped_state)"
    by (simp add: hook_eval)
  have br: "bridged bridge_config (Some (js ''eng-1''))"
    by (simp add: hook_eval)
  have hyp: "0 < threshold (createCircuitBreaker None)
      \<and> threshold (createCircuitBreaker None) \<le> int (length [200, 400, 600, 800, 1000 :: int])
      \<and> the_breaker tripped_state
         = failures_in_a_row [200, 400, 600, 800, 1000] (recordSuccess (createCircuitBreaker None))
      \<and> (\<forall>(ctx_agentId, event, env) \<in> set [(Some (js ''eng-1''), said ''Bonjour'', silent),
             (Some (js ''eng-1''), said ''HEARTBEAT_OK'', silent)].
            now_sync env - last [200, 400, 600, 800, 1000] < cooldownMs (createCircuitBreaker None))
      \<and> run_hooks bridge_config default_limits
          [(Some (js ''eng-1''), said ''Bonjour'', silent), (Some (js ''eng-1''), said ''HEARTBEAT_OK'', silent)]
          tripped_state
        = ([(Inr (Some unavailable_reply), [LimiterRecord (js ''eng-1''), Log Warn (CircuitOpen 5)]),
            (Inr (Some heartbeat_reply), [])],
           tripped_state\<lparr>rateLimiter := record_request 2000 (js ''eng-1'')
              (snd (check default_limits 2000 2000 (js ''eng-1'') createRateLimiter))\<rparr>)"
    using tripped_by_failures two_calls_example
    by (simp add: createCircuitBreaker_def DEFAULT_THRESHOLD_def DEFAULT_COOLDOWN_MS_def silent_def
        answers_def)
  have one: "fst (before_reply bridge_config default_limits (Some (js ''eng-1'')) (said ''Bonjour'') silent
        tripped_state) = Inr (Some unavailable_reply)"
    using open_breaker_short_circuit [THEN conjunct1, rule_format, OF opn,
      of bridge_config default_limits "Some (js ''eng-1'')" "said ''Bonjour''"] br
    by (simp add: hook_eval)
  have run: "the_breaker (tripped_state\<lparr>rateLimiter := record_request 2000 (js ''eng-1'')
              (snd (check default_limits 2000 2000 (js ''eng-1'') createRateLimiter))\<rparr>)
      = the_breaker tripped_state"
    using open_breaker_short_circuit [THEN conjunct2, rule_format, OF hyp] by simp
  show ?thesis
    using opn one run tripped_by_failures by (simp only: two_calls_example fst_conv snd_conv simp_thms)
qed

text \<open>
  Claim C6 as stated fails on a heartbeat: with the breaker open the hook answers it
  \<open>HEARTBEAT_OK\<close>, and the reply is not an error.
\<close>

theorem open_breaker_heartbeat_counterexample:
  "bridged bridge_config (Some (js ''eng-1''))
   \<and> getState (now_sync silent) (the_breaker tripped_state) = Open
   \<and> fst (before_reply bridge_config default_limits (Some (js ''eng-1'')) (said ''HEARTBEAT_OK'') silent
        tripped_state)
       = Inr (Some \<lparr>reply_text = JStr (js ''HEARTBEAT_OK''), isError = False\<rparr>)"
  by (simp add: hook_eval before_reply_def)

section \<open>Dead-lettering in the outbound listener\<close>

lemma dead_letter_drops:
  assumes "\<not> malformed (parse_fields entry_fields Map.empty)"
    and "xpending_outcome env = Inr (detail # others)"
    and "pd_deliveryCount detail = Some n"
    and "n > 5"
    and "xack_deadletter env = None"
  shows "processEntry redis config entryId entry_fields env cliBinary =
     Some (Inr (), cliBinary,
       [Broker redis (XPENDING STREAM_OUTBOUND (consumerGroup config) entryId entryId 1),
        Log Err (DeadLettering entryId n),
        Broker redis (XACK STREAM_OUTBOUND (consumerGroup config) entryId)])"
  using assms by (simp add: processEntry_def DEAD_LETTER_MAX_RETRIES_def Let_def)

lemma dead_letter_no_cli:
  assumes "\<not> malformed (parse_fields entry_fields Map.empty)"
    and "xpending_outcome env = Inr (detail # others)"
    and "pd_deliveryCount detail = Some n"
    and "n > 5"
    and "xack_deadletter env = None"
  shows "\<exists>evs. processEntry redis config entryId entry_fields env cliBinary = Some (Inr (), cliBinary, evs)
           \<and> executions evs = []
           \<and> Log Err (DeadLettering entryId n) \<in> set evs
           \<and> Broker redis (XACK STREAM_OUTBOUND (consumerGroup config) entryId) \<in> set evs"
  using dead_letter_drops [OF assms] by simp

lemma pending_error_delivers:
  assumes "\<not> malformed (parse_fields entry_fields Map.empty)"
    and "xpending_outcome env = Inl err"
  shows "processEntry redis config entryId entry_fields env cliBinary =
     (case deliver redis config entryId (parse_fields entry_fields Map.empty) env cliBinary of
        None \<Rightarrow> None
      | Some (bin, evs) \<Rightarrow>
          Some (Inr (), bin,
            Broker redis (XPENDING STREAM_OUTBOUND (consumerGroup config) entryId entryId 1) # evs))"
  using assms by (simp add: processEntry_def Let_def split: option.splits)

lemma dead_letter_example:
  "processEntry Redis bridge_config (js ''1-0'') hello_fields (redelivered 6) (Some (js ''openclaw'')) =
     Some (Inr (), Some (js ''openclaw''),
       [Broker Redis (XPENDING (js ''bridge:outbound'') (js ''clawdbot-bridge'') (js ''1-0'') (js ''1-0'') 1),
        Log Err (DeadLettering (js ''1-0'') 6),
        Broker Redis (XACK (js ''bridge:outbound'') (js ''clawdbot-bridge'') (js ''1-0''))])"
  by (simp add: listener_eval)

lemma pending_error_example:
  "processEntry Redis bridge_config (js ''1-0'') hello_fields pending_fails (Some (js ''openclaw'')) =
     Some (Inr (), Some (js ''openclaw''),
       [Broker Redis (XPENDING (js ''bridge:outbound'') (js ''clawdbot-bridge'') (js ''1-0'') (js ''1-0'') 1),
        Log Info (Delivering (js ''42'') (js ''telegram'')),
        Exec (js ''openclaw'')
          [js ''message'', js ''send'', js ''--channel'', js ''telegram'', js ''--target'', js ''42'',
           js ''--message'', js ''hello''],
        Broker Redis (XACK (js ''bridge:outbound'') (js ''clawdbot-bridge'') (js ''1-0''))])"
  by (simp add: listener_eval)

text \<open>
  Claim C9 at the input where the code leaves it. For a well-formed entry whose pending
  delivery count is above 5, \<open>processEntry\<close> logs the dead-letter error and issues the
  acknowledgement, and it returns there when the acknowledgement succeeds
  (\<open>dead_letter_drops\<close>); an error of the pending-list inspection is swallowed and the
  entry is delivered (\<open>pending_error_delivers\<close>). But the \<open>catch\<close> written for the
  inspection also swallows an exception of the dead-letter acknowledgement: with a count of
  6 and an acknowledgement that throws, the entry is logged as dead-lettered and then
  delivered through the CLI all the same.
\<close>

theorem dead_letter_ack_failure:
  "processEntry Redis bridge_config (js ''1-0'') hello_fields ack_fails (Some (js ''openclaw'')) =
     Some (Inr (), Some (js ''openclaw''),
       [Broker Redis (XPENDING (js ''bridge:outbound'') (js ''clawdbot-bridge'') (js ''1-0'') (js ''1-0'') 1),
        Log Err (DeadLettering (js ''1-0'') 6),
        Broker Redis (XACK (js ''bridge:outbound'') (js ''clawdbot-bridge'') (js ''1-0'')),
        Log Info (Delivering (js ''42'') (js ''telegram'')),
        Exec (js ''openclaw'')
          [js ''message'', js ''send'', js ''--channel'', js ''telegram'', js ''--target'', js ''42'',
           js ''--message'', js ''hello''],
        Broker Redis (XACK (js ''bridge:outbound'') (js ''clawdbot-bridge'') (js ''1-0''))])"
  by (simp add: listener_eval)

end
